theory Spec2Isabelle
  imports Main "HOL-Library.Sublist"
begin

section \<open>Data model\<close>

subsection \<open>Object identifiers (object.ObjMetadata)\<close>

record GroupKind =
  Group :: string
  Kind :: string

record ObjMetadata =
  Namespace :: string
  Name :: string
  GroupKind :: GroupKind

subsection \<open>Manifests (resource.Info)\<close>

text \<open>
  An unstructured object is modelled by what the engine reads from it:
  \<^verbatim>\<open>u.GroupVersionKind().GroupKind()\<close>, \<^verbatim>\<open>u.GetName()\<close>,
  \<^verbatim>\<open>u.GetNamespace()\<close> and its labels. \<^verbatim>\<open>info.Object\<close> is an
  interface value; \<open>Typed\<close> stands for every implementation other than
  \<^verbatim>\<open>*unstructured.Unstructured\<close>, on which the type assertion of
  \<^verbatim>\<open>infosToObjMetas\<close> panics.
\<close>

record unstructured =
  GetGroupKind :: GroupKind
  GetName :: string
  GetNamespace :: string
  GetLabels :: "(string \<times> string) list"

datatype runtime_object = Unstructured unstructured | Typed

text \<open>
  \<open>Namespaced\<close> is the result of the method \<^verbatim>\<open>info.Namespaced()\<close>
  of the cli-runtime library.
\<close>

record Info =
  Object :: runtime_object
  InfoNamespace :: string
  InfoName :: string
  Namespaced :: bool

subsection \<open>Errors\<close>

text \<open>
  Go's \<^verbatim>\<open>error\<close> values, one constructor per way the sources build one:
  the two grouping-object errors of package prune, \<^verbatim>\<open>fmt.Errorf\<close> with a
  constant message, \<^verbatim>\<open>fmt.Errorf("polling for status failed: %v", e)\<close>,
  \<^verbatim>\<open>errors.WrapPrefix(err, prefix, 1)\<close>, the runner's
  \<^verbatim>\<open>timeoutError\<close>, and errors handed in by collaborators. A \<^verbatim>\<open>nil\<close>
  error is \<open>None\<close> of \<open>error option\<close>.
\<close>

datatype error =
    NoGroupingObjError
  | MultipleGroupingObjError "Info list"
  | Errorf string
  | PollingFailed "error option"
  | WrapPrefix error string
  | timeoutError string
  | CollaboratorError string

subsection \<open>Status observations (pollevent.Event)\<close>

datatype status =
    InProgressStatus | FailedStatus | CurrentStatus
  | TerminatingStatus | NotFoundStatus | UnknownStatus

record ResourceStatus =
  Identifier :: ObjMetadata
  Status :: status

datatype EventType = ResourceUpdateEvent | CompletedEvent | AbortedEvent | ErrorEvent

text \<open>
  The fields of an observation that the engine reads. \<open>Resource\<close> is a pointer
  in the source: \<open>None\<close> is \<^verbatim>\<open>nil\<close>.
\<close>

record pollevent =
  EventType :: EventType
  Resource :: "ResourceStatus option"
  Error :: "error option"

subsection \<open>Output events (event.Event)\<close>

datatype ResourceAction = ApplyAction | PruneAction

datatype ApplyEventType = ApplyEventCompleted

datatype PruneEventType = PruneEventCompleted

text \<open>
  The source's \<^verbatim>\<open>event.Event\<close> is a struct with a \<open>Type\<close> tag and one payload
  field per tag; the constructors are named after the tags.
\<close>

datatype Event =
    InitType "(ResourceAction \<times> ObjMetadata list) list"
  | ApplyType ApplyEventType
  | StatusType pollevent
  | PruneType PruneEventType
  | ErrorType error

subsection \<open>Tasks\<close>

datatype condition = AllCurrent | AllNotFound

text \<open>
  The four task types the applier builds. The wait task carries its identifiers,
  its condition and its timeout (a \<^verbatim>\<open>time.Duration\<close>).
\<close>

datatype Task =
    ApplyTask "Info list"
  | SendEventTask Event
  | WaitTask "ObjMetadata list" condition int
  | PruneTask "Info list"

record TaskResult =
  Err :: "error option"

section \<open>The status collector\<close>

text \<open>
  Modelled from the spec: the collector (\<^verbatim>\<open>resourceStatusCollector\<close>, its
  constructor and its methods \<^verbatim>\<open>resourceStatus\<close> and \<^verbatim>\<open>conditionMet\<close>)
  is not among the sources. Section 4.3: a mapping from identifier to latest status,
  initialised to Unknown for each identifier in scope; observing overwrites the entry;
  AllCurrent holds iff every listed identifier maps to Current, AllNotFound iff every
  listed identifier maps to NotFound; identifiers not in the map are treated as Unknown.
\<close>

type_synonym resourceStatusCollector = "ObjMetadata \<Rightarrow> status option"

text \<open>
  Modelled from the spec: \<^verbatim>\<open>newResourceStatusCollector\<close> is not among the
  sources. The mapping is "initialized to Unknown for each identifier in scope".
\<close>

fun newResourceStatusCollector :: "ObjMetadata list \<Rightarrow> resourceStatusCollector" where
  "newResourceStatusCollector [] = Map.empty"
| "newResourceStatusCollector (i # identifiers) =
     (newResourceStatusCollector identifiers)(i \<mapsto> UnknownStatus)"

text \<open>
  Modelled from the spec: \<^verbatim>\<open>resourceStatus\<close> is not among the sources.
  Observing a status "overwrites the entry".
\<close>

definition resourceStatus ::
  "resourceStatusCollector \<Rightarrow> ObjMetadata \<Rightarrow> status \<Rightarrow> resourceStatusCollector" where
  "resourceStatus c i s = c(i \<mapsto> s)"

text \<open>
  Modelled from the spec: the lookup of the collector is not among the sources.
  "Identifiers not in the collector's map are treated as Unknown."
\<close>

definition latestStatus :: "resourceStatusCollector \<Rightarrow> ObjMetadata \<Rightarrow> status" where
  "latestStatus c i = (case c i of None \<Rightarrow> UnknownStatus | Some s \<Rightarrow> s)"

text \<open>
  Modelled from the spec: \<^verbatim>\<open>conditionMet\<close> is not among the sources. "For
  AllCurrent, true iff every listed identifier currently maps to Current; for
  AllNotFound, true iff every listed identifier maps to NotFound."
\<close>

fun conditionMet :: "resourceStatusCollector \<Rightarrow> ObjMetadata list \<Rightarrow> condition \<Rightarrow> bool" where
  "conditionMet c identifiers AllCurrent =
     list_all (\<lambda>i. latestStatus c i = CurrentStatus) identifiers"
| "conditionMet c identifiers AllNotFound =
     list_all (\<lambda>i. latestStatus c i = NotFoundStatus) identifiers"

section \<open>The runner loop (baseRunner.run)\<close>

text \<open>
  What the loop does to its collaborators is recorded, in program order, as a list
  of actions: the calls on the current task (\<^verbatim>\<open>Start\<close>,
  \<^verbatim>\<open>startAndComplete\<close>, \<^verbatim>\<open>complete\<close>, \<^verbatim>\<open>ClearTimeout\<close>) and the
  events it writes to \<^verbatim>\<open>eventChannel\<close>.
\<close>

datatype action =
    Start Task
  | StartAndComplete Task
  | Complete Task
  | ClearTimeout Task
  | Send Event

text \<open>
  One entry of a schedule is the case that the loop's \<^verbatim>\<open>select\<close> takes next,
  with the value received: a status observation (\<open>None\<close> when the channel is
  closed, \<^verbatim>\<open>ok == false\<close>), the result posted by the current task, or the
  closing of the context's done channel.
\<close>

datatype select_case =
    StatusRecv "pollevent option"
  | TaskRecv TaskResult
  | DoneRecv

fun isTaskRecv :: "select_case \<Rightarrow> bool" where
  "isTaskRecv (TaskRecv msg) = True"
| "isTaskRecv _ = False"

text \<open>
  The loop's variables. \<open>doneCh\<close> is \<open>False\<close> once the loop has set its
  done channel to \<^verbatim>\<open>nil\<close>.
\<close>

record baseRunner =
  collector :: resourceStatusCollector
  taskQueue :: "Task list"
  currentTask :: Task
  abort :: bool
  abortReason :: "error option"
  doneCh :: bool
  trace :: "action list"

datatype outcome =
    Returned "error option" "action list"
  | Blocked baseRunner
  | Panicked "action list"

definition completeIfWaitTask :: "Task \<Rightarrow> action list" where
  "completeIfWaitTask tsk =
     (case tsk of
        WaitTask identifiers cond timeout \<Rightarrow> [Complete tsk]
      | _ \<Rightarrow> [])"

text \<open>
  \<^verbatim>\<open>nextTask\<close>: \<open>None\<close> is the source's \<^verbatim>\<open>(nil, true)\<close>, an empty queue;
  otherwise the task taken, the rest of the queue and the call that starts the task.
\<close>

definition nextTask ::
  "resourceStatusCollector \<Rightarrow> Task list \<Rightarrow> (Task \<times> Task list \<times> action list) option" where
  "nextTask c queue =
     (case queue of
        [] \<Rightarrow> None
      | tsk # rest \<Rightarrow>
          (case tsk of
             WaitTask identifiers cond timeout \<Rightarrow>
               if conditionMet c identifiers cond
               then Some (tsk, rest, [StartAndComplete tsk])
               else Some (tsk, rest, [Start tsk])
           | _ \<Rightarrow> Some (tsk, rest, [Start tsk])))"

datatype step_result =
    Continue baseRunner
  | Return "error option" "action list"
  | Panic "action list"

text \<open>
  One iteration of the \<^verbatim>\<open>for { select { ... } }\<close> loop. A receive from a
  \<^verbatim>\<open>nil\<close> channel is never selected, so a \<open>DoneRecv\<close> entry met after the
  done channel was set to \<^verbatim>\<open>nil\<close> leaves the state as it is. Reading
  \<^verbatim>\<open>statusEvent.Resource.Identifier\<close> through a \<^verbatim>\<open>nil\<close> pointer panics,
  after the event was forwarded.
\<close>

fun step :: "baseRunner \<Rightarrow> select_case \<Rightarrow> step_result" where
  "step b (StatusRecv r) =
     (case r of
        None \<Rightarrow> Continue b
      | Some statusEvent \<Rightarrow>
          if abort b then Continue b
          else if EventType statusEvent = ErrorEvent then
            Continue (b\<lparr>abort := True,
                        abortReason := Some (PollingFailed (Error statusEvent)),
                        trace := trace b @ completeIfWaitTask (currentTask b)\<rparr>)
          else
            (case Resource statusEvent of
               None \<Rightarrow> Panic (trace b @ [Send (StatusType statusEvent)])
             | Some rs \<Rightarrow>
                 (let c = resourceStatus (collector b) (Identifier rs) (Status rs);
                      tr = trace b @ [Send (StatusType statusEvent)]
                  in Continue (b\<lparr>collector := c,
                       trace := tr @
                         (case currentTask b of
                            WaitTask identifiers cond timeout \<Rightarrow>
                              if conditionMet c identifiers cond
                              then completeIfWaitTask (currentTask b) else []
                          | _ \<Rightarrow> [])\<rparr>))))"
| "step b (TaskRecv msg) =
     (let tr = trace b @ [ClearTimeout (currentTask b)] in
      case Err msg of
        Some e \<Rightarrow> Return (Some e) tr
      | None \<Rightarrow>
          if abort b then Return (abortReason b) tr
          else
            (case nextTask (collector b) (taskQueue b) of
               None \<Rightarrow> Return None tr
             | Some (tsk, rest, started) \<Rightarrow>
                 Continue (b\<lparr>currentTask := tsk, taskQueue := rest,
                              trace := tr @ started\<rparr>)))"
| "step b DoneRecv =
     (if doneCh b
      then Continue (b\<lparr>doneCh := False, abort := True,
                        trace := trace b @ completeIfWaitTask (currentTask b)\<rparr>)
      else Continue b)"

text \<open>
  The loop over a schedule. \<open>Blocked\<close> is the loop waiting in its
  \<^verbatim>\<open>select\<close> when the schedule is used up.
\<close>

fun run_loop :: "baseRunner \<Rightarrow> select_case list \<Rightarrow> outcome" where
  "run_loop b [] = Blocked b"
| "run_loop b (c # cs) =
     (case step b c of
        Continue b' \<Rightarrow> run_loop b' cs
      | Return err tr \<Rightarrow> Returned err tr
      | Panic tr \<Rightarrow> Panicked tr)"

text \<open>
  \<^verbatim>\<open>baseRunner.run\<close>: the first task is fetched and started, the abort flag
  is clear, no abort reason is stored and the done channel is the context's.
\<close>

definition run ::
  "resourceStatusCollector \<Rightarrow> Task list \<Rightarrow> select_case list \<Rightarrow> outcome" where
  "run c queue schedule =
     (case nextTask c queue of
        None \<Rightarrow> Returned None []
      | Some (tsk, rest, started) \<Rightarrow>
          run_loop \<lparr>collector = c, taskQueue = rest, currentTask = tsk,
                    abort = False, abortReason = None, doneCh = True,
                    trace = started\<rparr> schedule)"

text \<open>
  \<^verbatim>\<open>taskStatusRunner.Run\<close>: the collector is created for the identifiers, the
  poller's channel is the source of the schedule's status observations; after the
  loop returns the poller is cancelled and its channel drained, which changes
  neither the result nor the events written.
\<close>

definition taskStatusRunner_Run ::
  "ObjMetadata list \<Rightarrow> Task list \<Rightarrow> select_case list \<Rightarrow> outcome" where
  "taskStatusRunner_Run identifiers queue schedule =
     run (newResourceStatusCollector identifiers) queue schedule"

section \<open>The results that a wait task posts\<close>

text \<open>
  Modelled from the spec: the wait task (\<^verbatim>\<open>WaitTask.Start\<close>,
  \<^verbatim>\<open>complete\<close> and \<^verbatim>\<open>startAndComplete\<close>) is not among the sources.
  Section 4.4: started with Start, a wait task "arms a timeout timer; the task does
  not actively poll -- it completes only when the runner, watching the collector,
  explicitly invokes Complete, or when the timer fires"; StartAndComplete is "used
  by the runner to short-circuit when the condition is already met at task entry".
  \<open>posted\<close> is the result that a call makes the task post to the task channel at
  once: one without error for \<^verbatim>\<open>complete\<close> and \<^verbatim>\<open>startAndComplete\<close>, none
  for the other calls.
\<close>

fun posted :: "action \<Rightarrow> TaskResult option" where
  "posted (StartAndComplete tsk) = Some \<lparr>Err = None\<rparr>"
| "posted (Complete tsk) = Some \<lparr>Err = None\<rparr>"
| "posted _ = None"

text \<open>
  Modelled from the spec: the result sink of a task "receives exactly one TaskResult
  value". The receives on the task channel that the calls on a task give rise to by
  themselves: the first result posted, if there is one.
\<close>

definition postedResults :: "action list \<Rightarrow> select_case list" where
  "postedResults calls = map TaskRecv (take 1 (List.map_filter posted calls))"

section \<open>The applier\<close>

text \<open>
  The options of the applier that its functions read:
  \<^verbatim>\<open>StatusOptions.wait\<close>, \<^verbatim>\<open>StatusOptions.Timeout\<close>,
  \<^verbatim>\<open>StatusOptions.period\<close> and \<^verbatim>\<open>NoPrune\<close>.
\<close>

record Applier =
  wait :: bool
  Timeout :: int
  period :: int
  NoPrune :: bool

text \<open>
  Three functions that \<^verbatim>\<open>readAndPrepareObjects\<close> calls are declared outside
  the sources and are parameters of the model: \<^verbatim>\<open>prune.IsGroupingObject\<close>,
  \<^verbatim>\<open>prune.CreateGroupingObj\<close> (which can fail) and the order that
  \<^verbatim>\<open>sort.Sort(ResourceInfos(resources))\<close> establishes.
\<close>

record collaborators =
  IsGroupingObject :: "runtime_object \<Rightarrow> bool"
  CreateGroupingObj :: "Info \<Rightarrow> Info list \<Rightarrow> error + Info"
  sortResourceInfos :: "Info list \<Rightarrow> Info list"

fun splitInfos_loop ::
  "(runtime_object \<Rightarrow> bool) \<Rightarrow> Info list \<Rightarrow> Info list \<Rightarrow> Info list \<Rightarrow> Info list \<times> Info list" where
  "splitInfos_loop isGrouping [] groupingObjectTemplates resources =
     (resources, groupingObjectTemplates)"
| "splitInfos_loop isGrouping (info # infos) groupingObjectTemplates resources =
     (if isGrouping (Object info)
      then splitInfos_loop isGrouping infos (groupingObjectTemplates @ [info]) resources
      else splitInfos_loop isGrouping infos groupingObjectTemplates (resources @ [info]))"

definition splitInfos ::
  "(runtime_object \<Rightarrow> bool) \<Rightarrow> Info list \<Rightarrow> Info list \<times> Info list" where
  "splitInfos isGrouping infos = splitInfos_loop isGrouping infos [] []"

definition NamespaceNone :: string where
  "NamespaceNone = []"

fun validateNamespace_loop :: "string \<Rightarrow> Info list \<Rightarrow> bool" where
  "validateNamespace_loop currentNamespace [] = True"
| "validateNamespace_loop currentNamespace (info # infos) =
     (if Namespaced info then
        (let current = (if currentNamespace = NamespaceNone
                        then InfoNamespace info else currentNamespace)
         in if current \<noteq> InfoNamespace info then False
            else validateNamespace_loop current infos)
      else validateNamespace_loop currentNamespace infos)"

definition validateNamespace :: "Info list \<Rightarrow> bool" where
  "validateNamespace infos = validateNamespace_loop NamespaceNone infos"

text \<open>
  \<^verbatim>\<open>readAndPrepareObjects\<close>. Its first argument after the collaborators is what
  \<^verbatim>\<open>a.ApplyOptions.GetObjects()\<close> returned. \<^verbatim>\<open>gots[0]\<close> is read only where
  \<^verbatim>\<open>len(gots)\<close> is one.
\<close>

definition readAndPrepareObjects ::
  "collaborators \<Rightarrow> error + Info list \<Rightarrow> error + Info list" where
  "readAndPrepareObjects K getObjects =
     (case getObjects of
        Inl err \<Rightarrow> Inl err
      | Inr infos \<Rightarrow>
          (case splitInfos (IsGroupingObject K) infos of
             (resources, gots) \<Rightarrow>
               if length gots = 0 then Inl NoGroupingObjError
               else if length gots > 1 then Inl (MultipleGroupingObjError gots)
               else
                 (case CreateGroupingObj K (gots ! 0) resources of
                    Inl err \<Rightarrow> Inl err
                  | Inr groupingObject \<Rightarrow>
                      (let ordered = sortResourceInfos K resources
                       in if \<not> validateNamespace ordered
                          then Inl (Errorf ''objects have differing namespaces'')
                          else Inr ([groupingObject] @ ordered)))))"

text \<open>
  \<^verbatim>\<open>infosToObjMetas\<close>: \<open>None\<close> is the panic of the type assertion
  \<^verbatim>\<open>info.Object.(*unstructured.Unstructured)\<close>.
\<close>

fun infosToObjMetas_loop :: "ObjMetadata list \<Rightarrow> Info list \<Rightarrow> ObjMetadata list option" where
  "infosToObjMetas_loop objMetas [] = Some objMetas"
| "infosToObjMetas_loop objMetas (info # infos) =
     (case Object info of
        Typed \<Rightarrow> None
      | Unstructured u \<Rightarrow>
          infosToObjMetas_loop
            (objMetas @ [\<lparr>Namespace = GetNamespace u, Name = GetName u,
                          GroupKind = GetGroupKind u\<rparr>]) infos)"

definition infosToObjMetas :: "Info list \<Rightarrow> ObjMetadata list option" where
  "infosToObjMetas infos = infosToObjMetas_loop [] infos"

text \<open>
  \<^verbatim>\<open>buildTaskQueue\<close>: the slice of tasks, in the order in which the source
  puts them on the queue channel.
\<close>

definition buildTaskQueue :: "Applier \<Rightarrow> Info list \<Rightarrow> ObjMetadata list \<Rightarrow> Task list" where
  "buildTaskQueue a infos identifiers =
     (let tasks = [ApplyTask infos, SendEventTask (ApplyType ApplyEventCompleted)];
          tasks = (if wait a
                   then tasks @
                     [WaitTask identifiers AllCurrent (Timeout a),
                      SendEventTask (StatusType \<lparr>EventType = CompletedEvent,
                                                 Resource = None, Error = None\<rparr>)]
                   else tasks);
          tasks = (if \<not> NoPrune a
                   then tasks @
                     [PruneTask infos, SendEventTask (PruneType PruneEventCompleted)]
                   else tasks)
      in tasks)"

text \<open>
  Modelled from the spec: the task types of package task are not among the sources.
  Section 4.4: an EmitEvent task "writes its pre-baked event to the output stream and
  completes immediately". The per-object events that the apply and prune clients
  report while their task runs are not part of the model.
\<close>

fun taskEvents :: "Task \<Rightarrow> Event list" where
  "taskEvents (SendEventTask e) = [e]"
| "taskEvents _ = []"

text \<open>
  The events that an action of the loop puts on the output channel: the event it
  sends itself, and the event of an EmitEvent task it starts.
\<close>

fun actionEvents :: "action \<Rightarrow> Event list" where
  "actionEvents (Send e) = [e]"
| "actionEvents (Start tsk) = taskEvents tsk"
| "actionEvents (StartAndComplete tsk) = taskEvents tsk"
| "actionEvents (Complete tsk) = []"
| "actionEvents (ClearTimeout tsk) = []"

definition eventStream :: "action list \<Rightarrow> Event list" where
  "eventStream tr = concat (map actionEvents tr)"

text \<open>
  The events that the goroutine of \<^verbatim>\<open>Applier.Run\<close> has put on the output
  channel: \<open>Finished\<close> when the goroutine has returned and the deferred
  \<^verbatim>\<open>close(eventChannel)\<close> has run, \<open>Waiting\<close> while the runner is blocked in its
  loop and the channel is open, \<open>Crashed\<close> after a panic.
\<close>

datatype run_outcome =
    Finished "Event list"
  | Waiting "Event list"
  | Crashed "Event list"

text \<open>
  The goroutine of \<^verbatim>\<open>Applier.Run\<close>: the events on the output channel, and
  with them the actions of the runner that it has called, which are the calls
  made on the tasks of the queue it has built.
\<close>

definition Run_goroutine ::
  "collaborators \<Rightarrow> Applier \<Rightarrow> error + Info list \<Rightarrow> select_case list \<Rightarrow>
     run_outcome \<times> action list" where
  "Run_goroutine K a getObjects schedule =
     (case readAndPrepareObjects K getObjects of
        Inl err \<Rightarrow>
          (Finished [ErrorType (WrapPrefix err ''error reading resources'')], [])
      | Inr infos \<Rightarrow>
          (case infosToObjMetas infos of
             None \<Rightarrow> (Crashed [], [])
           | Some identifiers \<Rightarrow>
               (let queue = buildTaskQueue a infos identifiers;
                    init = InitType [(ApplyAction, identifiers)]
                in case taskStatusRunner_Run identifiers queue schedule of
                     Returned None tr \<Rightarrow> (Finished (init # eventStream tr), tr)
                   | Returned (Some err) tr \<Rightarrow>
                       (Finished (init # eventStream tr @ [ErrorType err]), tr)
                   | Blocked b \<Rightarrow> (Waiting (init # eventStream (trace b)), trace b)
                   | Panicked tr \<Rightarrow> (Crashed (init # eventStream tr), tr))))"

text \<open>\<^verbatim>\<open>Applier.Run\<close> as its caller sees it: the output channel.\<close>

definition Run ::
  "collaborators \<Rightarrow> Applier \<Rightarrow> error + Info list \<Rightarrow> select_case list \<Rightarrow> run_outcome" where
  "Run K a getObjects schedule = fst (Run_goroutine K a getObjects schedule)"

text \<open>\<^verbatim>\<open>Applier.Run\<close> as its tasks see it: the calls made on them.\<close>

definition Run_trace ::
  "collaborators \<Rightarrow> Applier \<Rightarrow> error + Info list \<Rightarrow> select_case list \<Rightarrow> action list" where
  "Run_trace K a getObjects schedule = snd (Run_goroutine K a getObjects schedule)"

section \<open>The text form of identifiers\<close>

text \<open>
  \<^verbatim>\<open>ObjMetadata.String\<close> and \<^verbatim>\<open>parseObjMetadata\<close> of package prune are not
  among the sources; only their tests are. They are modelled from section 6 of the
  spec, over the library functions \<^verbatim>\<open>strings.Split\<close>, \<^verbatim>\<open>strings.TrimSpace\<close>
  and \<^verbatim>\<open>GroupKind.Empty\<close>.
\<close>

definition fieldSeparator :: char where
  "fieldSeparator = CHR ''_''"

text \<open>
  Go strings are byte strings read as UTF-8. The white space of
  \<^verbatim>\<open>unicode.IsSpace\<close>, each code point by its UTF-8 encoding: U+0009 to U+000D,
  U+0020, U+0085, U+00A0, U+1680, U+2000 to U+200A, U+2028, U+2029, U+202F, U+205F
  and U+3000.
\<close>

definition whiteSpace :: "string list" where
  "whiteSpace =
     [[CHR 0x09], [CHR 0x0A], [CHR 0x0B], [CHR 0x0C], [CHR 0x0D], [CHR 0x20],
      [CHR 0xC2, CHR 0x85], [CHR 0xC2, CHR 0xA0],
      [CHR 0xE1, CHR 0x9A, CHR 0x80],
      [CHR 0xE2, CHR 0x80, CHR 0x80], [CHR 0xE2, CHR 0x80, CHR 0x81],
      [CHR 0xE2, CHR 0x80, CHR 0x82], [CHR 0xE2, CHR 0x80, CHR 0x83],
      [CHR 0xE2, CHR 0x80, CHR 0x84], [CHR 0xE2, CHR 0x80, CHR 0x85],
      [CHR 0xE2, CHR 0x80, CHR 0x86], [CHR 0xE2, CHR 0x80, CHR 0x87],
      [CHR 0xE2, CHR 0x80, CHR 0x88], [CHR 0xE2, CHR 0x80, CHR 0x89],
      [CHR 0xE2, CHR 0x80, CHR 0x8A],
      [CHR 0xE2, CHR 0x80, CHR 0xA8], [CHR 0xE2, CHR 0x80, CHR 0xA9],
      [CHR 0xE2, CHR 0x80, CHR 0xAF],
      [CHR 0xE2, CHR 0x81, CHR 0x9F],
      [CHR 0xE3, CHR 0x80, CHR 0x80]]"

text \<open>
  Dropping from the front of a string, one after the other, every leading rune
  whose encoding is in the list. An encoding is never empty.
\<close>

function dropLeading :: "string list \<Rightarrow> string \<Rightarrow> string" where
  "dropLeading runes s =
     (case find (\<lambda>r. r \<noteq> [] \<and> prefix r s) runes of
        None \<Rightarrow> s
      | Some r \<Rightarrow> dropLeading runes (drop (length r) s))"
  by pat_completeness auto
termination
proof (relation "measure (\<lambda>(runes, s). length s)")
  show "wf (measure (\<lambda>(runes, s). length s))" by simp
next
  fix runes :: "string list" and s r :: string
  assume "find (\<lambda>r. r \<noteq> [] \<and> prefix r s) runes = Some r"
  then have "r \<noteq> []" and "prefix r s" by (auto simp: find_Some_iff)
  then have "s \<noteq> []" by auto
  with \<open>r \<noteq> []\<close>
  show "((runes, drop (length r) s), (runes, s)) \<in> measure (\<lambda>(runes, s). length s)"
    by simp
qed

declare dropLeading.simps [simp del]

text \<open>
  \<^verbatim>\<open>strings.TrimSpace\<close>: the leading white space is dropped, then the trailing
  white space. The last rune of a string is a white space exactly if the string ends
  with its encoding, so the trailing white space is dropped on the reversed string.
\<close>

definition TrimSpace :: "string \<Rightarrow> string" where
  "TrimSpace s = rev (dropLeading (map rev whiteSpace) (rev (dropLeading whiteSpace s)))"

text \<open>
  \<^verbatim>\<open>strings.Split(s, sep)\<close> for a separator of one character: the fields between
  the separators, one more than there are separators.
\<close>

fun Split_loop :: "char \<Rightarrow> string \<Rightarrow> string \<Rightarrow> string list" where
  "Split_loop sep field [] = [field]"
| "Split_loop sep field (c # cs) =
     (if c = sep then field # Split_loop sep [] cs
      else Split_loop sep (field @ [c]) cs)"

definition Split :: "string \<Rightarrow> char \<Rightarrow> string list" where
  "Split s sep = Split_loop sep [] s"

text \<open>
  Modelled from the spec: \<^verbatim>\<open>ObjMetadata.String\<close> is not among the sources. The
  text form is \<^verbatim>\<open>namespace_name_group_kind\<close>, "empty namespace rendered as empty
  segment".
\<close>

definition String :: "ObjMetadata \<Rightarrow> string" where
  "String m =
     Namespace m @ [fieldSeparator] @ Name m @ [fieldSeparator] @
     Group (GroupKind m) @ [fieldSeparator] @ Kind (GroupKind m)"

text \<open>\<^verbatim>\<open>GroupKind.Empty\<close>: both the group and the kind are empty.\<close>

definition Empty :: "GroupKind \<Rightarrow> bool" where
  "Empty gk = (Group gk = [] \<and> Kind gk = [])"

text \<open>
  Modelled from the spec: \<^verbatim>\<open>parseObjMetadata\<close> is not among the sources. "Split
  on underscore into exactly four fields, trim surrounding whitespace from each
  field; reject when fewer than four fields or when name or group-kind are empty
  after trim." \<open>None\<close> is the rejection.
\<close>

definition parseObjMetadata :: "string \<Rightarrow> ObjMetadata option" where
  "parseObjMetadata str =
     (let parts = Split str fieldSeparator in
      if length parts = 4 then
        (let namespace = TrimSpace (parts ! 0);
             name = TrimSpace (parts ! 1);
             gk = \<lparr>Group = TrimSpace (parts ! 2), Kind = TrimSpace (parts ! 3)\<rparr>
         in if name = [] \<or> Empty gk then None
            else Some \<lparr>Namespace = namespace, Name = name, GroupKind = gk\<rparr>)
      else None)"

section \<open>An example run\<close>

text \<open>
  Scenario S1 of the spec, used to evaluate the model: a Deployment
  \<^verbatim>\<open>default/foo\<close> and a grouping-object template, read in that order. The
  collaborators of the example recognise a grouping object by its label, create the
  grouping object as the template itself and keep the order of the resources.
\<close>

definition example_deployment :: Info where
  "example_deployment =
     \<lparr>Object = Unstructured
        \<lparr>GetGroupKind = \<lparr>Group = ''apps'', Kind = ''Deployment''\<rparr>,
         GetName = ''foo'', GetNamespace = ''default'', GetLabels = []\<rparr>,
      InfoNamespace = ''default'', InfoName = ''foo'', Namespaced = True\<rparr>"

definition example_grouping :: Info where
  "example_grouping =
     \<lparr>Object = Unstructured
        \<lparr>GetGroupKind = \<lparr>Group = [], Kind = ''ConfigMap''\<rparr>,
         GetName = ''inventory'', GetNamespace = ''default'',
         GetLabels = [(''inventory-id'', ''test'')]\<rparr>,
      InfoNamespace = ''default'', InfoName = ''inventory'', Namespaced = True\<rparr>"

definition example_collaborators :: collaborators where
  "example_collaborators =
     \<lparr>IsGroupingObject =
        (\<lambda>obj. case obj of
                 Unstructured u \<Rightarrow> GetLabels u \<noteq> []
               | Typed \<Rightarrow> False),
      CreateGroupingObj = (\<lambda>template resources. Inr template),
      sortResourceInfos = (\<lambda>infos. infos)\<rparr>"

definition example_applier :: Applier where
  "example_applier = \<lparr>wait = True, Timeout = 30, period = 2, NoPrune = False\<rparr>"

definition deployment_id :: ObjMetadata where
  "deployment_id =
     \<lparr>Namespace = ''default'', Name = ''foo'',
      GroupKind = \<lparr>Group = ''apps'', Kind = ''Deployment''\<rparr>\<rparr>"

definition grouping_id :: ObjMetadata where
  "grouping_id =
     \<lparr>Namespace = ''default'', Name = ''inventory'',
      GroupKind = \<lparr>Group = [], Kind = ''ConfigMap''\<rparr>\<rparr>"

definition ok :: TaskResult where
  "ok = \<lparr>Err = None\<rparr>"

definition statusUpdate :: "ObjMetadata \<Rightarrow> status \<Rightarrow> pollevent" where
  "statusUpdate i s =
     \<lparr>EventType = ResourceUpdateEvent,
      Resource = Some \<lparr>Identifier = i, Status = s\<rparr>, Error = None\<rparr>"

definition pollerError :: pollevent where
  "pollerError =
     \<lparr>EventType = ErrorEvent, Resource = None,
      Error = Some (CollaboratorError ''connection refused'')\<rparr>"

definition statusCompleted :: Event where
  "statusCompleted =
     StatusType \<lparr>EventType = CompletedEvent, Resource = None, Error = None\<rparr>"

section \<open>Vocabulary of the properties\<close>

text \<open>The tasks that a trace has started, in order.\<close>

fun startedTask :: "action \<Rightarrow> Task list" where
  "startedTask (Start tsk) = [tsk]"
| "startedTask (StartAndComplete tsk) = [tsk]"
| "startedTask _ = []"

definition startedTasks :: "action list \<Rightarrow> Task list" where
  "startedTasks tr = concat (map startedTask tr)"

text \<open>The actions of the loop so far, whatever its outcome.\<close>

fun outcome_trace :: "outcome \<Rightarrow> action list" where
  "outcome_trace (Returned err tr) = tr"
| "outcome_trace (Blocked b) = trace b"
| "outcome_trace (Panicked tr) = tr"

text \<open>The events on the output channel so far, whatever the outcome of the run.\<close>

fun emitted :: "run_outcome \<Rightarrow> Event list" where
  "emitted (Finished evs) = evs"
| "emitted (Waiting evs) = evs"
| "emitted (Crashed evs) = evs"

fun isErrorType :: "Event \<Rightarrow> bool" where
  "isErrorType (ErrorType err) = True"
| "isErrorType _ = False"

fun isInitType :: "Event \<Rightarrow> bool" where
  "isInitType (InitType groups) = True"
| "isInitType _ = False"

fun isStatusType :: "Event \<Rightarrow> bool" where
  "isStatusType (StatusType statusEvent) = True"
| "isStatusType _ = False"

text \<open>
  The phase-completion events that a run plans, in the words of section 4.1 of the
  spec: ApplyCompleted, then StatusCompleted if wait is requested, then
  PruneCompleted if prune is not suppressed.
\<close>

definition phaseCompletionEvents :: "Applier \<Rightarrow> Event list" where
  "phaseCompletionEvents a =
     [ApplyType ApplyEventCompleted] @
     (if wait a then [statusCompleted] else []) @
     (if NoPrune a then [] else [PruneType PruneEventCompleted])"

text \<open>
  The grouping-object templates and the other resources of what was read, in the
  words of the spec.
\<close>

definition groupingTemplates :: "collaborators \<Rightarrow> Info list \<Rightarrow> Info list" where
  "groupingTemplates K infos = filter (\<lambda>info. IsGroupingObject K (Object info)) infos"

definition nonGrouping :: "collaborators \<Rightarrow> Info list \<Rightarrow> Info list" where
  "nonGrouping K infos = filter (\<lambda>info. \<not> IsGroupingObject K (Object info)) infos"

text \<open>The identifier that \<^verbatim>\<open>infosToObjMetas\<close> builds for an unstructured object.\<close>

definition objMetadataOf :: "unstructured \<Rightarrow> ObjMetadata" where
  "objMetadataOf u =
     \<lparr>Namespace = GetNamespace u, Name = GetName u, GroupKind = GetGroupKind u\<rparr>"

text \<open>The task queue of the example run.\<close>

definition example_queue :: "Task list" where
  "example_queue =
     [ApplyTask [example_grouping, example_deployment],
      SendEventTask (ApplyType ApplyEventCompleted),
      WaitTask [grouping_id, deployment_id] AllCurrent 30,
      SendEventTask statusCompleted,
      PruneTask [example_grouping, example_deployment],
      SendEventTask (PruneType PruneEventCompleted)]"

text \<open>
  A field that the text form carries unchanged: it holds no separator and no
  surrounding whitespace.
\<close>

definition plainField :: "string \<Rightarrow> bool" where
  "plainField field = (fieldSeparator \<notin> set field \<and> TrimSpace field = field)"

text \<open>An identifier whose name holds the separator.\<close>

definition underscore_id :: ObjMetadata where
  "underscore_id =
     \<lparr>Namespace = ''default'', Name = ''my_app'',
      GroupKind = \<lparr>Group = ''apps'', Kind = ''Deployment''\<rparr>\<rparr>"

section \<open>The runner loop: auxiliary facts\<close>

lemma run_loop_append:
  "run_loop b (xs @ ys) =
     (case run_loop b xs of Blocked b' \<Rightarrow> run_loop b' ys | r \<Rightarrow> r)"
  by (induction xs arbitrary: b) (auto split: step_result.splits)

lemma run_append:
  "run c queue (xs @ ys) =
     (case run c queue xs of Blocked b \<Rightarrow> run_loop b ys | r \<Rightarrow> r)"
  by (simp add: run_def run_loop_append split: option.splits)

lemma step_abort_status: "abort b \<Longrightarrow> step b (StatusRecv r) = Continue b"
  by (simp split: option.splits)

lemma step_error_event:
  "\<not> abort b \<Longrightarrow> EventType ev = ErrorEvent \<Longrightarrow>
   step b (StatusRecv (Some ev)) =
     Continue (b\<lparr>abort := True, abortReason := Some (PollingFailed (Error ev)),
                 trace := trace b @ completeIfWaitTask (currentTask b)\<rparr>)"
  by simp

lemma completeIfWaitTask_iff:
  "completeIfWaitTask tsk =
     (if \<exists>identifiers cond timeout. tsk = WaitTask identifiers cond timeout
      then [Complete tsk] else [])"
  by (cases tsk) (simp_all add: completeIfWaitTask_def)

text \<open>
  Once the abort flag is set the loop only waits for the current task: status
  observations are dropped, and the closing of the done channel, seen once, calls
  \<^verbatim>\<open>completeIfWaitTask\<close> again.
\<close>

lemma run_loop_aborted:
  assumes "abort b" and "\<forall>c\<in>set cs. \<not> isTaskRecv c"
  shows "run_loop b cs =
     Blocked (b\<lparr>doneCh := doneCh b \<and> DoneRecv \<notin> set cs,
               trace := trace b @
                 (if doneCh b \<and> DoneRecv \<in> set cs
                  then completeIfWaitTask (currentTask b) else [])\<rparr>)"
  using assms
proof (induction cs arbitrary: b)
  case Nil
  then show ?case by simp
next
  case (Cons c cs)
  show ?case
  proof (cases c)
    case (StatusRecv r)
    with Cons show ?thesis by (simp add: step_abort_status del: step.simps)
  next
    case (TaskRecv r)
    with Cons.prems show ?thesis by simp
  next
    case DoneRecv
    with Cons show ?thesis by (cases "doneCh b") auto
  qed
qed

lemma run_loop_aborted_task:
  assumes "abort b" and "\<forall>c\<in>set cs. \<not> isTaskRecv c"
  shows "run_loop b (cs @ TaskRecv msg # rest) =
     Returned (case Err msg of Some e \<Rightarrow> Some e | None \<Rightarrow> abortReason b)
       (trace b @
          (if doneCh b \<and> DoneRecv \<in> set cs
           then completeIfWaitTask (currentTask b) else []) @
          [ClearTimeout (currentTask b)])"
  using assms
  by (simp add: run_loop_append run_loop_aborted Let_def split: option.splits)

text \<open>An abort reason is stored only together with the abort flag.\<close>

lemma step_reason_inv:
  assumes "step b c = Continue b'" and "\<not> abort b \<longrightarrow> abortReason b = None"
  shows "\<not> abort b' \<longrightarrow> abortReason b' = None"
  using assms
  by (cases c) (auto simp: Let_def split: option.splits if_splits)

lemma run_loop_reason_inv:
  assumes "run_loop b cs = Blocked b'" and "\<not> abort b \<longrightarrow> abortReason b = None"
  shows "\<not> abort b' \<longrightarrow> abortReason b' = None"
  using assms
proof (induction cs arbitrary: b)
  case Nil
  then show ?case by simp
next
  case (Cons c cs)
  from Cons.prems(1) obtain b1 where s: "step b c = Continue b1"
    and r: "run_loop b1 cs = Blocked b'"
    by (auto simp del: step.simps split: step_result.splits)
  from step_reason_inv [OF s Cons.prems(2)] Cons.IH [OF r] show ?case by blast
qed

lemma run_reason_inv:
  assumes "run c queue cs = Blocked b'"
  shows "\<not> abort b' \<longrightarrow> abortReason b' = None"
  using assms
  by (auto simp: run_def split: option.splits dest!: run_loop_reason_inv)

subsection \<open>Started tasks and written events\<close>

lemma startedTasks_append [simp]:
  "startedTasks (xs @ ys) = startedTasks xs @ startedTasks ys"
  by (simp add: startedTasks_def)

lemma startedTasks_simps [simp]:
  "startedTasks [] = []"
  "startedTasks (Start tsk # tr) = tsk # startedTasks tr"
  "startedTasks (StartAndComplete tsk # tr) = tsk # startedTasks tr"
  "startedTasks (Complete tsk # tr) = startedTasks tr"
  "startedTasks (ClearTimeout tsk # tr) = startedTasks tr"
  "startedTasks (Send e # tr) = startedTasks tr"
  by (simp_all add: startedTasks_def)

lemma startedTasks_completeIfWaitTask [simp]:
  "startedTasks (completeIfWaitTask tsk) = []"
  by (cases tsk) (simp_all add: completeIfWaitTask_def)

lemma eventStream_append [simp]:
  "eventStream (xs @ ys) = eventStream xs @ eventStream ys"
  by (simp add: eventStream_def)

lemma eventStream_simps [simp]:
  "eventStream [] = []"
  "eventStream (Start tsk # tr) = taskEvents tsk @ eventStream tr"
  "eventStream (StartAndComplete tsk # tr) = taskEvents tsk @ eventStream tr"
  "eventStream (Complete tsk # tr) = eventStream tr"
  "eventStream (ClearTimeout tsk # tr) = eventStream tr"
  "eventStream (Send e # tr) = e # eventStream tr"
  by (simp_all add: eventStream_def)

lemma eventStream_completeIfWaitTask [simp]:
  "eventStream (completeIfWaitTask tsk) = []"
  by (cases tsk) (simp_all add: completeIfWaitTask_def)

lemma nextTask_Some:
  "nextTask c queue = Some (tsk, rest, started) \<Longrightarrow>
     queue = tsk # rest \<and> startedTasks started = [tsk] \<and>
     eventStream started = taskEvents tsk"
  by (auto simp: nextTask_def split: list.splits Task.splits if_splits)

lemma nextTask_None: "nextTask c queue = None \<longleftrightarrow> queue = []"
  by (auto simp: nextTask_def split: list.splits Task.splits if_splits)

lemma taskEvents_mem: "e \<in> set (taskEvents tsk) \<Longrightarrow> tsk = SendEventTask e"
  by (cases tsk) simp_all

text \<open>What one iteration adds to the trace.\<close>

lemma step_Continue_trace:
  assumes "step b c = Continue b'"
  shows "startedTasks (trace b') @ taskQueue b' = startedTasks (trace b) @ taskQueue b
    \<and> (\<forall>e\<in>set (eventStream (trace b')).
          e \<in> set (eventStream (trace b)) \<or> isStatusType e
          \<or> SendEventTask e \<in> set (taskQueue b))"
  using assms
  by (cases c)
     (auto simp: Let_def nextTask_None split: option.splits if_splits Task.splits
           dest!: nextTask_Some taskEvents_mem)

lemma step_Return_trace:
  assumes "step b c = Return err tr"
  shows "startedTasks tr = startedTasks (trace b) \<and> eventStream tr = eventStream (trace b)"
  using assms
  by (cases c) (auto simp: Let_def split: option.splits if_splits)

lemma step_Panic_trace:
  assumes "step b c = Panic tr"
  shows "startedTasks tr = startedTasks (trace b)
    \<and> (\<forall>e\<in>set (eventStream tr). e \<in> set (eventStream (trace b)) \<or> isStatusType e)"
  using assms
  by (cases c) (auto simp: Let_def split: option.splits if_splits)

text \<open>
  The tasks started are a prefix of the queue, and every event of the trace is a
  forwarded status event or the event of a queued \<open>SendEventTask\<close>.
\<close>

lemma run_loop_trace:
  assumes "startedTasks (trace b) @ taskQueue b = Q"
    and "\<forall>e\<in>set (eventStream (trace b)). isStatusType e \<or> SendEventTask e \<in> set Q"
  shows "prefix (startedTasks (outcome_trace (run_loop b cs))) Q
    \<and> (\<forall>e\<in>set (eventStream (outcome_trace (run_loop b cs))).
          isStatusType e \<or> SendEventTask e \<in> set Q)"
  using assms
proof (induction cs arbitrary: b)
  case Nil
  then show ?case by (auto simp: prefix_def)
next
  case (Cons c cs)
  show ?case
  proof (cases "step b c")
    case (Continue b1)
    from step_Continue_trace [OF Continue] Cons.prems
    have 1: "startedTasks (trace b1) @ taskQueue b1 = Q"
      and 2: "\<forall>e\<in>set (eventStream (trace b1)). isStatusType e \<or> SendEventTask e \<in> set Q"
      by auto
    from Cons.IH [OF 1 2] Continue show ?thesis by (simp del: step.simps)
  next
    case (Return err tr)
    from step_Return_trace [OF Return] Cons.prems Return show ?thesis
      by (auto simp: prefix_def simp del: step.simps)
  next
    case (Panic tr)
    from step_Panic_trace [OF Panic] Cons.prems Panic show ?thesis
      by (auto simp: prefix_def simp del: step.simps)
  qed
qed

lemma run_trace:
  "prefix (startedTasks (outcome_trace (run c Q cs))) Q
    \<and> (\<forall>e\<in>set (eventStream (outcome_trace (run c Q cs))).
          isStatusType e \<or> SendEventTask e \<in> set Q)"
proof (cases "nextTask c Q")
  case None
  then show ?thesis by (simp add: run_def)
next
  case (Some r)
  obtain tsk rest started where r: "r = (tsk, rest, started)" by (cases r)
  from nextTask_Some [OF Some [unfolded r]]
  have q: "Q = tsk # rest" and st: "startedTasks started = [tsk]"
    and ev: "eventStream started = taskEvents tsk" by auto
  let ?b = "\<lparr>collector = c, taskQueue = rest, currentTask = tsk,
              abort = False, abortReason = None, doneCh = True, trace = started\<rparr>"
  have 1: "startedTasks (trace ?b) @ taskQueue ?b = Q" using q st by simp
  have 2: "\<forall>e\<in>set (eventStream (trace ?b)). isStatusType e \<or> SendEventTask e \<in> set Q"
    using q ev by (auto dest: taskEvents_mem)
  from run_loop_trace [OF 1 2, of cs] Some r show ?thesis by (simp add: run_def)
qed

lemma run_loop_blocked_queue:
  assumes "run_loop b cs = Blocked b'"
  shows "startedTasks (trace b') @ taskQueue b' = startedTasks (trace b) @ taskQueue b"
  using assms
proof (induction cs arbitrary: b)
  case Nil
  then show ?case by simp
next
  case (Cons c cs)
  from Cons.prems obtain b1 where s: "step b c = Continue b1"
    and r: "run_loop b1 cs = Blocked b'"
    by (auto simp del: step.simps split: step_result.splits)
  from Cons.IH [OF r] step_Continue_trace [OF s] show ?case by simp
qed

lemma run_blocked_queue:
  assumes "run c Q cs = Blocked b"
  shows "startedTasks (trace b) @ taskQueue b = Q"
proof (cases "nextTask c Q")
  case None
  with assms show ?thesis by (simp add: run_def)
next
  case (Some r)
  obtain tsk rest started where r: "r = (tsk, rest, started)" by (cases r)
  from nextTask_Some [OF Some [unfolded r]]
  have q: "Q = tsk # rest" and st: "startedTasks started = [tsk]" by auto
  let ?b = "\<lparr>collector = c, taskQueue = rest, currentTask = tsk,
              abort = False, abortReason = None, doneCh = True, trace = started\<rparr>"
  have l: "run_loop ?b cs = Blocked b" using assms Some r by (simp add: run_def)
  from run_loop_blocked_queue [OF l] q st show ?thesis by simp
qed

text \<open>
  Without a cancellation, a return without error means that the queue was worked
  through.
\<close>

lemma step_Continue_reason:
  assumes "step b c = Continue b'" and "c \<noteq> DoneRecv"
    and "abort b \<longrightarrow> abortReason b \<noteq> None"
  shows "abort b' \<longrightarrow> abortReason b' \<noteq> None"
  using assms
  by (cases c) (auto simp: Let_def split: option.splits if_splits)

lemma step_Return_None:
  assumes "step b c = Return None tr" and "abort b \<longrightarrow> abortReason b \<noteq> None"
  shows "taskQueue b = []"
  using assms
  by (cases c) (auto simp: Let_def nextTask_None split: option.splits if_splits)

lemma run_loop_complete:
  assumes "run_loop b cs = Returned None tr" and "DoneRecv \<notin> set cs"
    and "abort b \<longrightarrow> abortReason b \<noteq> None"
  shows "startedTasks tr = startedTasks (trace b) @ taskQueue b"
  using assms
proof (induction cs arbitrary: b)
  case Nil
  then show ?case by simp
next
  case (Cons c cs)
  show ?case
  proof (cases "step b c")
    case (Continue b1)
    have r: "run_loop b1 cs = Returned None tr"
      using Cons.prems(1) Continue by (simp del: step.simps)
    have d: "DoneRecv \<notin> set cs" and c: "c \<noteq> DoneRecv" using Cons.prems(2) by auto
    from Cons.IH [OF r d step_Continue_reason [OF Continue c Cons.prems(3)]]
      step_Continue_trace [OF Continue]
    show ?thesis by simp
  next
    case (Return err tr')
    with Cons.prems(1) have e: "err = None" "tr' = tr" by (simp_all del: step.simps)
    from step_Return_None [OF Return [unfolded e] Cons.prems(3)]
      step_Return_trace [OF Return [unfolded e]]
    show ?thesis by simp
  next
    case (Panic tr')
    with Cons.prems(1) show ?thesis by (simp del: step.simps)
  qed
qed

lemma run_complete:
  assumes "run c Q cs = Returned None tr" and "DoneRecv \<notin> set cs"
  shows "startedTasks tr = Q"
proof (cases "nextTask c Q")
  case None
  with assms show ?thesis by (simp add: run_def nextTask_None)
next
  case (Some r)
  obtain tsk rest started where r: "r = (tsk, rest, started)" by (cases r)
  from nextTask_Some [OF Some [unfolded r]]
  have q: "Q = tsk # rest" and st: "startedTasks started = [tsk]" by auto
  let ?b = "\<lparr>collector = c, taskQueue = rest, currentTask = tsk,
              abort = False, abortReason = None, doneCh = True, trace = started\<rparr>"
  have l: "run_loop ?b cs = Returned None tr" using assms(1) Some r by (simp add: run_def)
  from run_loop_complete [OF l assms(2)] q st show ?thesis by simp
qed

lemma subseq_taskEvents:
  "subseq (concat (map taskEvents (startedTasks tr))) (eventStream tr)"
proof (induction tr)
  case Nil
  then show ?case by simp
next
  case (Cons x tr)
  then show ?case by (cases x) (auto intro: list_emb_append_mono)
qed

section \<open>The applier: auxiliary facts\<close>

lemma Run_unfold:
  "Run K a getObjects schedule =
     (case readAndPrepareObjects K getObjects of
        Inl err \<Rightarrow> Finished [ErrorType (WrapPrefix err ''error reading resources'')]
      | Inr infos \<Rightarrow>
          (case infosToObjMetas infos of
             None \<Rightarrow> Crashed []
           | Some identifiers \<Rightarrow>
               (let queue = buildTaskQueue a infos identifiers;
                    init = InitType [(ApplyAction, identifiers)]
                in case taskStatusRunner_Run identifiers queue schedule of
                     Returned None tr \<Rightarrow> Finished (init # eventStream tr)
                   | Returned (Some err) tr \<Rightarrow>
                       Finished (init # eventStream tr @ [ErrorType err])
                   | Blocked b \<Rightarrow> Waiting (init # eventStream (trace b))
                   | Panicked tr \<Rightarrow> Crashed (init # eventStream tr))))"
  by (simp add: Run_def Run_goroutine_def Let_def
      split: sum.splits option.splits outcome.splits)

lemma Run_trace_prepared:
  assumes "readAndPrepareObjects K getObjects = Inr infos"
    and "infosToObjMetas infos = Some identifiers"
  shows "Run_trace K a getObjects schedule =
     outcome_trace
       (taskStatusRunner_Run identifiers (buildTaskQueue a infos identifiers) schedule)"
  using assms
  by (simp add: Run_trace_def Run_goroutine_def Let_def
      split: option.splits outcome.splits)

lemma nextTask_Cons:
  "nextTask c (tsk # rest) =
     Some (tsk, rest,
       [if \<exists>identifiers cond timeout.
             tsk = WaitTask identifiers cond timeout \<and> conditionMet c identifiers cond
        then StartAndComplete tsk else Start tsk])"
  by (cases tsk) (simp_all add: nextTask_def)

text \<open>
  After the results of the Apply task and of the first EmitEvent task, the run has
  started the third task of its queue.
\<close>

lemma run_three_started:
  "startedTasks (outcome_trace (run c (t1 # t2 # t3 # rest)
      [TaskRecv \<lparr>Err = None\<rparr>, TaskRecv \<lparr>Err = None\<rparr>])) = [t1, t2, t3]"
  by (simp add: run_def nextTask_Cons Let_def)

lemma splitInfos_loop_eq:
  "splitInfos_loop isGrouping infos gots resources =
     (resources @ filter (\<lambda>info. \<not> isGrouping (Object info)) infos,
      gots @ filter (\<lambda>info. isGrouping (Object info)) infos)"
  by (induction infos arbitrary: gots resources) simp_all

lemma splitInfos_eq:
  "splitInfos (IsGroupingObject K) infos = (nonGrouping K infos, groupingTemplates K infos)"
  by (simp add: splitInfos_def splitInfos_loop_eq nonGrouping_def groupingTemplates_def)

lemma infosToObjMetas_loop_acc:
  "infosToObjMetas_loop acc infos = map_option ((@) acc) (infosToObjMetas_loop [] infos)"
proof (induction infos arbitrary: acc)
  case Nil
  then show ?case by simp
next
  case (Cons info infos)
  show ?case
  proof (cases "Object info")
    case (Unstructured u)
    then show ?thesis
      using Cons.IH [of "acc @ [objMetadataOf u]"] Cons.IH [of "[objMetadataOf u]"]
      by (simp add: objMetadataOf_def option.map_comp comp_def)
  next
    case Typed
    then show ?thesis by simp
  qed
qed

lemma map_option_append_single:
  "map_option ((@) [x]) r = map_option ((#) x) r"
  by (cases r) simp_all

lemma infosToObjMetas_Cons:
  "infosToObjMetas (info # infos) =
     (case Object info of
        Typed \<Rightarrow> None
      | Unstructured u \<Rightarrow> map_option ((#) (objMetadataOf u)) (infosToObjMetas infos))"
proof (cases "Object info")
  case (Unstructured u)
  then show ?thesis
    using infosToObjMetas_loop_acc [of "[objMetadataOf u]" infos]
    by (simp add: infosToObjMetas_def objMetadataOf_def map_option_append_single)
next
  case Typed
  then show ?thesis by (simp add: infosToObjMetas_def)
qed

lemma readAndPrepareObjects_Inr:
  assumes "readAndPrepareObjects K (Inr read) = Inr infos"
  shows "\<exists>template groupingObject.
       groupingTemplates K read = [template]
     \<and> CreateGroupingObj K template (nonGrouping K read) = Inr groupingObject
     \<and> validateNamespace (sortResourceInfos K (nonGrouping K read))
     \<and> infos = groupingObject # sortResourceInfos K (nonGrouping K read)"
proof -
  have "groupingTemplates K read \<noteq> [] \<and> \<not> 1 < length (groupingTemplates K read)"
    using assms
    by (auto simp: readAndPrepareObjects_def splitInfos_eq Let_def
        split: if_splits sum.splits)
  then obtain template where t: "groupingTemplates K read = [template]"
    by (cases "groupingTemplates K read") auto
  with assms show ?thesis
    by (auto simp: readAndPrepareObjects_def splitInfos_eq Let_def
        split: if_splits sum.splits)
qed

lemma buildTaskQueue_eq:
  "buildTaskQueue a infos identifiers =
     [ApplyTask infos, SendEventTask (ApplyType ApplyEventCompleted)] @
     (if wait a
      then [WaitTask identifiers AllCurrent (Timeout a), SendEventTask statusCompleted]
      else []) @
     (if NoPrune a then []
      else [PruneTask infos, SendEventTask (PruneType PruneEventCompleted)])"
  by (simp add: buildTaskQueue_def statusCompleted_def)

lemma taskEvents_buildTaskQueue:
  "concat (map taskEvents (buildTaskQueue a infos identifiers)) = phaseCompletionEvents a"
  by (simp add: buildTaskQueue_eq phaseCompletionEvents_def)

lemma SendEventTask_buildTaskQueue:
  "SendEventTask e \<in> set (buildTaskQueue a infos identifiers) \<Longrightarrow>
     \<not> isErrorType e \<and> \<not> isInitType e"
  by (auto simp: buildTaskQueue_eq statusCompleted_def split: if_splits)

lemma isStatusType_not_others: "isStatusType e \<Longrightarrow> \<not> isErrorType e \<and> \<not> isInitType e"
  by (cases e) simp_all

lemma runner_events:
  assumes "e \<in> set (eventStream (outcome_trace
      (taskStatusRunner_Run identifiers (buildTaskQueue a infos identifiers) schedule)))"
  shows "\<not> isErrorType e \<and> \<not> isInitType e"
  using assms run_trace [of "newResourceStatusCollector identifiers"
      "buildTaskQueue a infos identifiers" schedule]
    SendEventTask_buildTaskQueue [of e a infos identifiers] isStatusType_not_others [of e]
  unfolding taskStatusRunner_Run_def by blast

subsection \<open>The example run\<close>

lemma example_prepared:
  "readAndPrepareObjects example_collaborators (Inr [example_deployment, example_grouping]) =
     Inr [example_grouping, example_deployment]"
  by (simp add: readAndPrepareObjects_def splitInfos_def example_collaborators_def
      example_deployment_def example_grouping_def validateNamespace_def NamespaceNone_def)

lemma example_identifiers:
  "infosToObjMetas [example_grouping, example_deployment] = Some [grouping_id, deployment_id]"
  by (simp add: infosToObjMetas_def example_deployment_def example_grouping_def
      grouping_id_def deployment_id_def)

lemma example_buildTaskQueue:
  "buildTaskQueue example_applier [example_grouping, example_deployment]
     [grouping_id, deployment_id] = example_queue"
  by (simp add: buildTaskQueue_eq example_applier_def example_queue_def)

lemma example_not_current:
  "\<not> conditionMet (newResourceStatusCollector [grouping_id, deployment_id])
       [grouping_id, deployment_id] AllCurrent"
  by (simp add: latestStatus_def)

lemma example_wait_in_flight:
  "taskStatusRunner_Run [grouping_id, deployment_id] example_queue [TaskRecv ok, TaskRecv ok] =
     Blocked \<lparr>collector = newResourceStatusCollector [grouping_id, deployment_id],
       taskQueue = [SendEventTask statusCompleted,
                    PruneTask [example_grouping, example_deployment],
                    SendEventTask (PruneType PruneEventCompleted)],
       currentTask = WaitTask [grouping_id, deployment_id] AllCurrent 30,
       abort = False, abortReason = None, doneCh = True,
       trace = [Start (ApplyTask [example_grouping, example_deployment]),
                ClearTimeout (ApplyTask [example_grouping, example_deployment]),
                Start (SendEventTask (ApplyType ApplyEventCompleted)),
                ClearTimeout (SendEventTask (ApplyType ApplyEventCompleted)),
                Start (WaitTask [grouping_id, deployment_id] AllCurrent 30)]\<rparr>"
  using example_not_current
  by (simp add: taskStatusRunner_Run_def run_def nextTask_def example_queue_def ok_def Let_def
      del: conditionMet.simps newResourceStatusCollector.simps)

section \<open>The text form of identifiers: auxiliary facts\<close>

lemma Split_loop_no_sep:
  "sep \<notin> set s \<Longrightarrow> Split_loop sep field s = [field @ s]"
  by (induction s arbitrary: field) auto

lemma Split_loop_sep:
  "sep \<notin> set s \<Longrightarrow>
   Split_loop sep field (s @ sep # rest) = (field @ s) # Split_loop sep [] rest"
  by (induction s arbitrary: field) auto

lemma length_Split_loop:
  "length (Split_loop sep field s) = Suc (length (filter (\<lambda>c. c = sep) s))"
  by (induction s arbitrary: field) auto

lemma Split_String:
  assumes "fieldSeparator \<notin> set (Namespace m)" and "fieldSeparator \<notin> set (Name m)"
    and "fieldSeparator \<notin> set (Group (GroupKind m))"
    and "fieldSeparator \<notin> set (Kind (GroupKind m))"
  shows "Split (String m) fieldSeparator =
     [Namespace m, Name m, Group (GroupKind m), Kind (GroupKind m)]"
  using assms
  by (simp add: Split_def String_def Split_loop_sep Split_loop_no_sep)

lemma length_Split_String: "4 \<le> length (Split (String m) fieldSeparator)"
  by (simp add: Split_def String_def length_Split_loop)

text \<open>
  The cases of \<^verbatim>\<open>TestParseObjMetadata\<close> and the renderings that
  \<^verbatim>\<open>TestCreateObjMetadata\<close> expects, on the model.
\<close>

lemma parseObjMetadata_tests:
  "parseObjMetadata (''_test-name_apps_ReplicaSet'' @ [CHR 0x09]) =
     Some \<lparr>Namespace = [], Name = ''test-name'',
           GroupKind = \<lparr>Group = ''apps'', Kind = ''ReplicaSet''\<rparr>\<rparr>"
  "parseObjMetadata ''test-namespace_test-name_apps_Deployment'' =
     Some \<lparr>Namespace = ''test-namespace'', Name = ''test-name'',
           GroupKind = \<lparr>Group = ''apps'', Kind = ''Deployment''\<rparr>\<rparr>"
  "parseObjMetadata ''_test-name_apps'' = None"
  by (simp_all add: parseObjMetadata_def Split_def fieldSeparator_def TrimSpace_def
      whiteSpace_def dropLeading.simps Empty_def Let_def)

text \<open>White space outside ASCII is trimmed; a byte that is no rune is kept.\<close>

lemma TrimSpace_tests:
  "TrimSpace ([CHR 0xC2, CHR 0xA0] @ ''foo'' @ [CHR 0xC2, CHR 0x85]) = ''foo''"
  "TrimSpace ([CHR 0xE2, CHR 0x80, CHR 0x83] @ ''foo'' @ [CHR 0xE3, CHR 0x80, CHR 0x80]) = ''foo''"
  "TrimSpace [CHR 0xC2, CHR 0xA0] = []"
  "TrimSpace ('' test-name'' @ [CHR 0x09]) = ''test-name''"
  "TrimSpace [CHR 0xA0] = [CHR 0xA0]"
  by (simp_all add: TrimSpace_def whiteSpace_def dropLeading.simps)

lemma plainField_tests:
  "\<not> plainField [CHR 0xC2, CHR 0xA0]"
  "\<not> plainField '' foo''"
  "\<not> plainField ''my_app''"
  "plainField ''foo''"
  "plainField []"
  by (simp_all add: plainField_def fieldSeparator_def TrimSpace_def whiteSpace_def
      dropLeading.simps)

lemma String_tests:
  "String \<lparr>Namespace = [], Name = ''test-name'',
           GroupKind = \<lparr>Group = ''apps'', Kind = ''ReplicaSet''\<rparr>\<rparr> =
     ''_test-name_apps_ReplicaSet''"
  "String \<lparr>Namespace = ''test-namespace'', Name = ''test-name'',
           GroupKind = \<lparr>Group = ''apps'', Kind = ''ReplicaSet''\<rparr>\<rparr> =
     ''test-namespace_test-name_apps_ReplicaSet''"
  by (simp_all add: String_def fieldSeparator_def)

section \<open>The runner loop\<close>

text \<open>
  C10. When the current task posts its result while the abort flag is set, the
  runner returns at once: the task's own error if the result carries one, and the
  stored abort reason only if it carries none.
\<close>

theorem task_error_before_abort_reason:
  assumes "abort b"
  shows "run_loop b (TaskRecv msg # rest) =
     Returned (case Err msg of Some e \<Rightarrow> Some e | None \<Rightarrow> abortReason b)
       (trace b @ [ClearTimeout (currentTask b)])"
  using assms by (simp add: Let_def split: option.splits)

theorem task_error_before_abort_reason_witness:
  "run_loop \<lparr>collector = Map.empty, taskQueue = [PruneTask []],
      currentTask = ApplyTask [], abort = True,
      abortReason = Some (PollingFailed None), doneCh = True,
      trace = [Start (ApplyTask [])]\<rparr>
     [TaskRecv \<lparr>Err = Some (CollaboratorError ''apply failed'')\<rparr>, DoneRecv] =
    Returned (Some (CollaboratorError ''apply failed''))
      [Start (ApplyTask []), ClearTimeout (ApplyTask [])]
   \<and> run_loop \<lparr>collector = Map.empty, taskQueue = [PruneTask []],
      currentTask = ApplyTask [], abort = True,
      abortReason = Some (PollingFailed None), doneCh = True,
      trace = [Start (ApplyTask [])]\<rparr>
     [TaskRecv \<lparr>Err = None\<rparr>] =
    Returned (Some (PollingFailed None))
      [Start (ApplyTask []), ClearTimeout (ApplyTask [])]"
  using task_error_before_abort_reason [of "\<lparr>collector = Map.empty,
      taskQueue = [PruneTask []], currentTask = ApplyTask [], abort = True,
      abortReason = Some (PollingFailed None), doneCh = True,
      trace = [Start (ApplyTask [])]\<rparr>"
      "\<lparr>Err = Some (CollaboratorError ''apply failed'')\<rparr>" "[DoneRecv]"]
    task_error_before_abort_reason [of "\<lparr>collector = Map.empty,
      taskQueue = [PruneTask []], currentTask = ApplyTask [], abort = True,
      abortReason = Some (PollingFailed None), doneCh = True,
      trace = [Start (ApplyTask [])]\<rparr>" "\<lparr>Err = None\<rparr>" "[]"]
  by (simp del: step.simps run_loop.simps)

text \<open>
  C5 (amended). An error observation met while the abort flag is clear sets the flag
  and stores a reason built from the poller's error; \<^verbatim>\<open>complete\<close> is called on
  the current task exactly if it is a wait task; nothing is written to the event
  channel, neither for the error observation nor for any observation that follows;
  the loop stays blocked until the current task posts its result, and when that
  result carries no error the runner returns the stored reason. An observation met
  while the abort flag is set, an error observation included, changes nothing.
\<close>

theorem poller_error_aborts:
  assumes "\<not> abort b" and "EventType ev = ErrorEvent"
    and "\<forall>c\<in>set cs. \<not> isTaskRecv c"
  shows "step b (StatusRecv (Some ev)) =
           Continue (b\<lparr>abort := True, abortReason := Some (PollingFailed (Error ev)),
                       trace := trace b @ completeIfWaitTask (currentTask b)\<rparr>)
    \<and> completeIfWaitTask (currentTask b) =
         (if \<exists>identifiers cond timeout. currentTask b = WaitTask identifiers cond timeout
          then [Complete (currentTask b)] else [])
    \<and> run_loop b (StatusRecv (Some ev) # cs) =
         Blocked (b\<lparr>abort := True, abortReason := Some (PollingFailed (Error ev)),
                    doneCh := doneCh b \<and> DoneRecv \<notin> set cs,
                    trace := trace b @ completeIfWaitTask (currentTask b) @
                      (if doneCh b \<and> DoneRecv \<in> set cs
                       then completeIfWaitTask (currentTask b) else [])\<rparr>)
    \<and> run_loop b (StatusRecv (Some ev) # cs @ TaskRecv \<lparr>Err = None\<rparr> # rest) =
         Returned (Some (PollingFailed (Error ev)))
           (trace b @ completeIfWaitTask (currentTask b) @
              (if doneCh b \<and> DoneRecv \<in> set cs
               then completeIfWaitTask (currentTask b) else []) @
              [ClearTimeout (currentTask b)])
    \<and> (abort b' \<longrightarrow> step b' (StatusRecv r) = Continue b')"
proof -
  let ?b1 = "b\<lparr>abort := True, abortReason := Some (PollingFailed (Error ev)),
               trace := trace b @ completeIfWaitTask (currentTask b)\<rparr>"
  have s: "step b (StatusRecv (Some ev)) = Continue ?b1"
    using assms(1,2) by (rule step_error_event)
  have a1: "abort ?b1" by simp
  have blocked: "run_loop b (StatusRecv (Some ev) # cs) = run_loop ?b1 cs"
    using s by (simp del: step.simps)
  have ret: "run_loop b (StatusRecv (Some ev) # cs @ TaskRecv \<lparr>Err = None\<rparr> # rest) =
      run_loop ?b1 (cs @ TaskRecv \<lparr>Err = None\<rparr> # rest)"
    using s by (simp del: step.simps)
  show ?thesis
    using s blocked ret run_loop_aborted [OF a1 assms(3)]
      run_loop_aborted_task [OF a1 assms(3), of "\<lparr>Err = None\<rparr>" rest]
      completeIfWaitTask_iff [of "currentTask b"] step_abort_status [of b' r]
    by (simp del: step.simps)
qed

theorem poller_error_aborts_witness:
  "run_loop \<lparr>collector = Map.empty, taskQueue = [],
      currentTask = WaitTask [deployment_id] AllCurrent 30, abort = False,
      abortReason = None, doneCh = True,
      trace = [Start (WaitTask [deployment_id] AllCurrent 30)]\<rparr>
     (StatusRecv (Some \<lparr>EventType = ErrorEvent, Resource = None,
         Error = Some (CollaboratorError ''connection refused'')\<rparr>)
      # [StatusRecv (Some (statusUpdate deployment_id CurrentStatus))]
      @ TaskRecv \<lparr>Err = None\<rparr> # []) =
    Returned (Some (PollingFailed (Some (CollaboratorError ''connection refused''))))
      [Start (WaitTask [deployment_id] AllCurrent 30),
       Complete (WaitTask [deployment_id] AllCurrent 30),
       ClearTimeout (WaitTask [deployment_id] AllCurrent 30)]"
  using poller_error_aborts [where b = "\<lparr>collector = Map.empty, taskQueue = [],
      currentTask = WaitTask [deployment_id] AllCurrent 30, abort = False,
      abortReason = None, doneCh = True,
      trace = [Start (WaitTask [deployment_id] AllCurrent 30)]\<rparr>"
     and ev = "\<lparr>EventType = ErrorEvent, Resource = None,
         Error = Some (CollaboratorError ''connection refused'')\<rparr>"
     and cs = "[StatusRecv (Some (statusUpdate deployment_id CurrentStatus))]"
     and rest = "[]"]
  by (simp add: completeIfWaitTask_def del: step.simps run_loop.simps)

text \<open>
  The claim as stated fails: an error observation delivered after the cancellation
  was seen is dropped. No reason is stored for it, and when the wait task completes
  the runner returns \<^verbatim>\<open>nil\<close>.
\<close>

theorem poller_error_after_cancellation:
  "EventType pollerError = ErrorEvent
   \<and> taskStatusRunner_Run [grouping_id, deployment_id] example_queue
     [TaskRecv ok, TaskRecv ok, DoneRecv, StatusRecv (Some pollerError), TaskRecv ok] =
   Returned None
     [Start (ApplyTask [example_grouping, example_deployment]),
      ClearTimeout (ApplyTask [example_grouping, example_deployment]),
      Start (SendEventTask (ApplyType ApplyEventCompleted)),
      ClearTimeout (SendEventTask (ApplyType ApplyEventCompleted)),
      Start (WaitTask [grouping_id, deployment_id] AllCurrent 30),
      Complete (WaitTask [grouping_id, deployment_id] AllCurrent 30),
      ClearTimeout (WaitTask [grouping_id, deployment_id] AllCurrent 30)]"
  using example_not_current
  by (simp add: taskStatusRunner_Run_def run_def nextTask_def example_queue_def ok_def Let_def
      completeIfWaitTask_def pollerError_def
      del: conditionMet.simps newResourceStatusCollector.simps)

text \<open>
  C6. \<^verbatim>\<open>nextTask\<close> returns \<open>None\<close> on an empty queue. Otherwise it takes the
  first task and starts it with \<^verbatim>\<open>startAndComplete\<close> exactly if it is a wait task
  whose condition the collector already meets, and with \<^verbatim>\<open>Start\<close> in every other
  case. This is the call with which \<^verbatim>\<open>run\<close> starts the first task and with
  which the loop starts the next task after a result without error, the abort flag
  being clear. A wait task started with \<^verbatim>\<open>startAndComplete\<close> has posted its
  result by that call: on this result alone, with no status observation, the loop
  clears the task's timeout and goes on to the next task, or returns if there is
  none. A wait task started with \<^verbatim>\<open>Start\<close> has posted nothing, and the loop
  stays blocked on it.
\<close>

theorem wait_short_circuit:
  "nextTask c [] = None
   \<and> nextTask c (tsk # rest) =
       Some (tsk, rest,
         [if \<exists>identifiers cond timeout.
               tsk = WaitTask identifiers cond timeout \<and> conditionMet c identifiers cond
          then StartAndComplete tsk else Start tsk])
   \<and> run c (tsk # rest) [] =
       Blocked \<lparr>collector = c, taskQueue = rest, currentTask = tsk, abort = False,
         abortReason = None, doneCh = True,
         trace = [if \<exists>identifiers cond timeout.
                       tsk = WaitTask identifiers cond timeout \<and> conditionMet c identifiers cond
                  then StartAndComplete tsk else Start tsk]\<rparr>
   \<and> (\<not> abort b \<and> taskQueue b = tsk # rest \<longrightarrow>
        step b (TaskRecv \<lparr>Err = None\<rparr>) =
          Continue (b\<lparr>currentTask := tsk, taskQueue := rest,
            trace := trace b @
              [ClearTimeout (currentTask b),
               if \<exists>identifiers cond timeout.
                     tsk = WaitTask identifiers cond timeout
                     \<and> conditionMet (collector b) identifiers cond
               then StartAndComplete tsk else Start tsk]\<rparr>))
   \<and> (\<forall>started.
        nextTask c (WaitTask identifiers cond timeout # rest) =
          Some (WaitTask identifiers cond timeout, rest, started) \<longrightarrow>
        postedResults started =
          (if conditionMet c identifiers cond then [TaskRecv \<lparr>Err = None\<rparr>] else [])
        \<and> run c (WaitTask identifiers cond timeout # rest) (postedResults started) =
          (if conditionMet c identifiers cond
           then (case nextTask c rest of
                   None \<Rightarrow>
                     Returned None
                       [StartAndComplete (WaitTask identifiers cond timeout),
                        ClearTimeout (WaitTask identifiers cond timeout)]
                 | Some (tsk', rest', started') \<Rightarrow>
                     Blocked \<lparr>collector = c, taskQueue = rest', currentTask = tsk',
                       abort = False, abortReason = None, doneCh = True,
                       trace = [StartAndComplete (WaitTask identifiers cond timeout),
                                ClearTimeout (WaitTask identifiers cond timeout)]
                               @ started'\<rparr>)
           else Blocked \<lparr>collector = c, taskQueue = rest,
                  currentTask = WaitTask identifiers cond timeout,
                  abort = False, abortReason = None, doneCh = True,
                  trace = [Start (WaitTask identifiers cond timeout)]\<rparr>))
   \<and> (\<not> abort b \<and> taskQueue b = WaitTask identifiers cond timeout # rest
        \<and> conditionMet (collector b) identifiers cond \<longrightarrow>
        run_loop b (TaskRecv \<lparr>Err = None\<rparr> #
                    postedResults [StartAndComplete (WaitTask identifiers cond timeout)]) =
          (case nextTask (collector b) rest of
             None \<Rightarrow>
               Returned None
                 (trace b @
                  [ClearTimeout (currentTask b),
                   StartAndComplete (WaitTask identifiers cond timeout),
                   ClearTimeout (WaitTask identifiers cond timeout)])
           | Some (tsk', rest', started') \<Rightarrow>
               Blocked (b\<lparr>currentTask := tsk', taskQueue := rest',
                 trace := trace b @
                  [ClearTimeout (currentTask b),
                   StartAndComplete (WaitTask identifiers cond timeout),
                   ClearTimeout (WaitTask identifiers cond timeout)] @ started'\<rparr>)))"
proof -
  let ?w = "WaitTask identifiers cond timeout"
  have label: "nextTask c [] = None
   \<and> nextTask c (tsk # rest) =
       Some (tsk, rest,
         [if \<exists>identifiers cond timeout.
               tsk = WaitTask identifiers cond timeout \<and> conditionMet c identifiers cond
          then StartAndComplete tsk else Start tsk])
   \<and> run c (tsk # rest) [] =
       Blocked \<lparr>collector = c, taskQueue = rest, currentTask = tsk, abort = False,
         abortReason = None, doneCh = True,
         trace = [if \<exists>identifiers cond timeout.
                       tsk = WaitTask identifiers cond timeout \<and> conditionMet c identifiers cond
                  then StartAndComplete tsk else Start tsk]\<rparr>
   \<and> (\<not> abort b \<and> taskQueue b = tsk # rest \<longrightarrow>
        step b (TaskRecv \<lparr>Err = None\<rparr>) =
          Continue (b\<lparr>currentTask := tsk, taskQueue := rest,
            trace := trace b @
              [ClearTimeout (currentTask b),
               if \<exists>identifiers cond timeout.
                     tsk = WaitTask identifiers cond timeout
                     \<and> conditionMet (collector b) identifiers cond
               then StartAndComplete tsk else Start tsk]\<rparr>))"
    by (simp add: nextTask_Cons run_def Let_def) (simp add: nextTask_def)
  have w: "nextTask c' (?w # rest) =
      Some (?w, rest, [if conditionMet c' identifiers cond
                       then StartAndComplete ?w else Start ?w])" for c'
    by (simp add: nextTask_def)
  have entry: "\<forall>started. nextTask c (?w # rest) = Some (?w, rest, started) \<longrightarrow>
        postedResults started =
          (if conditionMet c identifiers cond then [TaskRecv \<lparr>Err = None\<rparr>] else [])
        \<and> run c (?w # rest) (postedResults started) =
          (if conditionMet c identifiers cond
           then (case nextTask c rest of
                   None \<Rightarrow> Returned None [StartAndComplete ?w, ClearTimeout ?w]
                 | Some (tsk', rest', started') \<Rightarrow>
                     Blocked \<lparr>collector = c, taskQueue = rest', currentTask = tsk',
                       abort = False, abortReason = None, doneCh = True,
                       trace = [StartAndComplete ?w, ClearTimeout ?w] @ started'\<rparr>)
           else Blocked \<lparr>collector = c, taskQueue = rest, currentTask = ?w,
                  abort = False, abortReason = None, doneCh = True,
                  trace = [Start ?w]\<rparr>)"
    by (cases "conditionMet c identifiers cond")
       (auto simp: w run_def postedResults_def List.map_filter_simps Let_def
             split: option.splits)
  have loop: "\<not> abort b \<and> taskQueue b = ?w # rest
        \<and> conditionMet (collector b) identifiers cond \<longrightarrow>
        run_loop b (TaskRecv \<lparr>Err = None\<rparr> # postedResults [StartAndComplete ?w]) =
          (case nextTask (collector b) rest of
             None \<Rightarrow>
               Returned None
                 (trace b @ [ClearTimeout (currentTask b), StartAndComplete ?w, ClearTimeout ?w])
           | Some (tsk', rest', started') \<Rightarrow>
               Blocked (b\<lparr>currentTask := tsk', taskQueue := rest',
                 trace := trace b @
                  [ClearTimeout (currentTask b), StartAndComplete ?w, ClearTimeout ?w]
                  @ started'\<rparr>))"
    by (auto simp: w postedResults_def List.map_filter_simps Let_def split: option.splits)
  from label entry loop show ?thesis by blast
qed

theorem wait_short_circuit_witness:
  "run (resourceStatus (newResourceStatusCollector [deployment_id])
          deployment_id CurrentStatus)
     [WaitTask [deployment_id] AllCurrent 30, SendEventTask statusCompleted]
     (postedResults [StartAndComplete (WaitTask [deployment_id] AllCurrent 30)]) =
     Blocked \<lparr>collector = resourceStatus (newResourceStatusCollector [deployment_id])
                 deployment_id CurrentStatus,
       taskQueue = [], currentTask = SendEventTask statusCompleted,
       abort = False, abortReason = None, doneCh = True,
       trace = [StartAndComplete (WaitTask [deployment_id] AllCurrent 30),
                ClearTimeout (WaitTask [deployment_id] AllCurrent 30),
                Start (SendEventTask statusCompleted)]\<rparr>
   \<and> run (newResourceStatusCollector [deployment_id])
     [WaitTask [deployment_id] AllCurrent 30, SendEventTask statusCompleted]
     (postedResults [Start (WaitTask [deployment_id] AllCurrent 30)]) =
     Blocked \<lparr>collector = newResourceStatusCollector [deployment_id],
       taskQueue = [SendEventTask statusCompleted],
       currentTask = WaitTask [deployment_id] AllCurrent 30,
       abort = False, abortReason = None, doneCh = True,
       trace = [Start (WaitTask [deployment_id] AllCurrent 30)]\<rparr>
   \<and> run_loop \<lparr>collector = resourceStatus (newResourceStatusCollector [deployment_id])
                   deployment_id CurrentStatus,
        taskQueue = [WaitTask [deployment_id] AllCurrent 30],
        currentTask = SendEventTask (ApplyType ApplyEventCompleted), abort = False,
        abortReason = None, doneCh = True, trace = []\<rparr>
       (TaskRecv \<lparr>Err = None\<rparr> #
        postedResults [StartAndComplete (WaitTask [deployment_id] AllCurrent 30)]) =
     Returned None
       [ClearTimeout (SendEventTask (ApplyType ApplyEventCompleted)),
        StartAndComplete (WaitTask [deployment_id] AllCurrent 30),
        ClearTimeout (WaitTask [deployment_id] AllCurrent 30)]"
proof -
  let ?met = "resourceStatus (newResourceStatusCollector [deployment_id])
               deployment_id CurrentStatus"
  let ?unmet = "newResourceStatusCollector [deployment_id]"
  let ?w = "WaitTask [deployment_id] AllCurrent 30"
  have met: "conditionMet ?met [deployment_id] AllCurrent"
    by (simp add: resourceStatus_def latestStatus_def)
  have unmet: "\<not> conditionMet ?unmet [deployment_id] AllCurrent"
    by (simp add: latestStatus_def)
  have n1: "nextTask ?met [?w, SendEventTask statusCompleted] =
      Some (?w, [SendEventTask statusCompleted], [StartAndComplete ?w])"
    using met by (simp add: nextTask_def del: conditionMet.simps)
  have n2: "nextTask ?unmet [?w, SendEventTask statusCompleted] =
      Some (?w, [SendEventTask statusCompleted], [Start ?w])"
    using unmet by (simp add: nextTask_def del: conditionMet.simps)
  have n3: "nextTask ?met [SendEventTask statusCompleted] =
      Some (SendEventTask statusCompleted, [], [Start (SendEventTask statusCompleted)])"
    by (simp add: nextTask_def)
  have n4: "nextTask ?met [] = None"
    by (simp add: nextTask_def)
  note entry_met = wait_short_circuit [where c = ?met and identifiers = "[deployment_id]"
      and cond = AllCurrent and timeout = 30 and rest = "[SendEventTask statusCompleted]",
      THEN conjunct2, THEN conjunct2, THEN conjunct2, THEN conjunct2, THEN conjunct1,
      rule_format, OF n1, THEN conjunct2]
  note entry_unmet = wait_short_circuit [where c = ?unmet and identifiers = "[deployment_id]"
      and cond = AllCurrent and timeout = 30 and rest = "[SendEventTask statusCompleted]",
      THEN conjunct2, THEN conjunct2, THEN conjunct2, THEN conjunct2, THEN conjunct1,
      rule_format, OF n2, THEN conjunct2]
  note in_loop = wait_short_circuit [where b = "\<lparr>collector = ?met, taskQueue = [?w],
        currentTask = SendEventTask (ApplyType ApplyEventCompleted), abort = False,
        abortReason = None, doneCh = True, trace = []\<rparr>"
      and identifiers = "[deployment_id]" and cond = AllCurrent and timeout = 30
      and rest = "[]",
      THEN conjunct2, THEN conjunct2, THEN conjunct2, THEN conjunct2, THEN conjunct2,
      rule_format]
  from entry_met met n3
  have 1: "run ?met [?w, SendEventTask statusCompleted] (postedResults [StartAndComplete ?w]) =
     Blocked \<lparr>collector = ?met, taskQueue = [], currentTask = SendEventTask statusCompleted,
       abort = False, abortReason = None, doneCh = True,
       trace = [StartAndComplete ?w, ClearTimeout ?w,
                Start (SendEventTask statusCompleted)]\<rparr>"
    by (simp del: conditionMet.simps newResourceStatusCollector.simps)
  from entry_unmet unmet
  have 2: "run ?unmet [?w, SendEventTask statusCompleted] (postedResults [Start ?w]) =
     Blocked \<lparr>collector = ?unmet, taskQueue = [SendEventTask statusCompleted],
       currentTask = ?w, abort = False, abortReason = None, doneCh = True,
       trace = [Start ?w]\<rparr>"
    by (simp del: conditionMet.simps newResourceStatusCollector.simps)
  from in_loop met n4
  have 3: "run_loop \<lparr>collector = ?met, taskQueue = [?w],
        currentTask = SendEventTask (ApplyType ApplyEventCompleted), abort = False,
        abortReason = None, doneCh = True, trace = []\<rparr>
       (TaskRecv \<lparr>Err = None\<rparr> # postedResults [StartAndComplete ?w]) =
     Returned None
       [ClearTimeout (SendEventTask (ApplyType ApplyEventCompleted)),
        StartAndComplete ?w, ClearTimeout ?w]"
    by (simp del: conditionMet.simps newResourceStatusCollector.simps step.simps
        run_loop.simps)
  from 1 2 3 show ?thesis by blast
qed

text \<open>
  C1 (amended). When the done channel closes while a task is in flight, the loop
  sets its abort flag, calls \<^verbatim>\<open>complete\<close> on the current task if it is a wait
  task, and stays blocked until the current task posts its result. It then returns
  the task's own error if the result carries one and otherwise the stored abort
  reason. The cancellation stores no reason: unless a poller error had set the flag
  before, the stored reason is \<^verbatim>\<open>nil\<close>, the runner returns no error, and
  \<^verbatim>\<open>Run\<close> writes no Error event and closes the stream after the events written
  so far. If an error is returned, \<^verbatim>\<open>Run\<close> writes it as the last event.
\<close>

theorem cancellation_returns_stored_reason:
  assumes prep: "readAndPrepareObjects K getObjects = Inr infos"
    and ids: "infosToObjMetas infos = Some identifiers"
    and pre: "taskStatusRunner_Run identifiers (buildTaskQueue a infos identifiers) pre
                = Blocked b"
    and live: "doneCh b"
    and cs: "\<forall>c\<in>set cs. \<not> isTaskRecv c"
  shows "taskStatusRunner_Run identifiers (buildTaskQueue a infos identifiers)
           (pre @ DoneRecv # cs) =
         Blocked (b\<lparr>doneCh := False, abort := True,
                    trace := trace b @ completeIfWaitTask (currentTask b)\<rparr>)
    \<and> taskStatusRunner_Run identifiers (buildTaskQueue a infos identifiers)
           (pre @ DoneRecv # cs @ TaskRecv msg # rest) =
         Returned (case Err msg of Some e \<Rightarrow> Some e | None \<Rightarrow> abortReason b)
           (trace b @ completeIfWaitTask (currentTask b) @ [ClearTimeout (currentTask b)])
    \<and> (\<not> abort b \<longrightarrow> abortReason b = None)
    \<and> Run K a getObjects (pre @ DoneRecv # cs @ TaskRecv msg # rest) =
         Finished (InitType [(ApplyAction, identifiers)] # eventStream (trace b) @
           (case (case Err msg of Some e \<Rightarrow> Some e | None \<Rightarrow> abortReason b) of
              None \<Rightarrow> [] | Some e \<Rightarrow> [ErrorType e]))"
proof -
  let ?q = "buildTaskQueue a infos identifiers"
  let ?b1 = "b\<lparr>doneCh := False, abort := True,
               trace := trace b @ completeIfWaitTask (currentTask b)\<rparr>"
  let ?err = "case Err msg of Some e \<Rightarrow> Some e | None \<Rightarrow> abortReason b"
  have s: "step b DoneRecv = Continue ?b1" using live by simp
  have a1: "abort ?b1" by simp
  have pre': "run (newResourceStatusCollector identifiers) ?q pre = Blocked b"
    using pre by (simp add: taskStatusRunner_Run_def)
  have blocked: "taskStatusRunner_Run identifiers ?q (pre @ DoneRecv # cs) = Blocked ?b1"
    using pre' s run_loop_aborted [OF a1 cs]
    by (simp add: taskStatusRunner_Run_def run_append del: step.simps)
  have ret: "taskStatusRunner_Run identifiers ?q (pre @ DoneRecv # cs @ TaskRecv msg # rest) =
      Returned ?err
        (trace b @ completeIfWaitTask (currentTask b) @ [ClearTimeout (currentTask b)])"
    using pre' s run_loop_aborted_task [OF a1 cs, of msg rest]
    by (simp add: taskStatusRunner_Run_def run_append del: step.simps split: option.splits)
  have reason: "\<not> abort b \<longrightarrow> abortReason b = None"
    using pre' by (rule run_reason_inv)
  have fin: "Run K a getObjects (pre @ DoneRecv # cs @ TaskRecv msg # rest) =
      Finished (InitType [(ApplyAction, identifiers)] # eventStream (trace b) @
        (case ?err of None \<Rightarrow> [] | Some e \<Rightarrow> [ErrorType e]))"
    using prep ids ret by (cases ?err) (simp_all add: Run_unfold Let_def)
  from blocked ret reason fin show ?thesis by blast
qed

theorem cancellation_returns_stored_reason_witness:
  "Run example_collaborators example_applier (Inr [example_deployment, example_grouping])
     ([TaskRecv ok, TaskRecv ok] @ DoneRecv #
      [StatusRecv (Some (statusUpdate deployment_id CurrentStatus))] @ TaskRecv ok # []) =
   Finished [InitType [(ApplyAction, [grouping_id, deployment_id])],
             ApplyType ApplyEventCompleted]"
  using cancellation_returns_stored_reason [OF example_prepared example_identifiers
      example_wait_in_flight [folded example_buildTaskQueue], of
      "[StatusRecv (Some (statusUpdate deployment_id CurrentStatus))]" ok "[]"]
  by (simp add: ok_def del: step.simps run_loop.simps)

text \<open>
  The claim as stated fails: with a wait task in flight, a cancellation followed by
  the completion of the wait task makes the runner return \<^verbatim>\<open>nil\<close>, not the
  context's error.
\<close>

theorem cancellation_returns_nil:
  "taskStatusRunner_Run [grouping_id, deployment_id] example_queue
     [TaskRecv ok, TaskRecv ok, DoneRecv, TaskRecv ok] =
   Returned None
     [Start (ApplyTask [example_grouping, example_deployment]),
      ClearTimeout (ApplyTask [example_grouping, example_deployment]),
      Start (SendEventTask (ApplyType ApplyEventCompleted)),
      ClearTimeout (SendEventTask (ApplyType ApplyEventCompleted)),
      Start (WaitTask [grouping_id, deployment_id] AllCurrent 30),
      Complete (WaitTask [grouping_id, deployment_id] AllCurrent 30),
      ClearTimeout (WaitTask [grouping_id, deployment_id] AllCurrent 30)]"
  using example_not_current
  by (simp add: taskStatusRunner_Run_def run_def nextTask_def example_queue_def ok_def Let_def
      completeIfWaitTask_def
      del: conditionMet.simps newResourceStatusCollector.simps)

section \<open>The applier\<close>

text \<open>
  C2. \<^verbatim>\<open>buildTaskQueue\<close> produces exactly this queue: an Apply task over all
  infos, then EmitEvent(ApplyCompleted); then, iff wait is requested, a Wait task
  over the identifiers with condition AllCurrent and the configured timeout,
  followed by EmitEvent(StatusCompleted); then, iff prune is not suppressed, a Prune
  task followed by EmitEvent(PruneCompleted). The runner only consumes the queue:
  while it is blocked, the tasks started so far followed by the tasks still queued
  are the queue as built, and whatever its outcome the tasks started are a prefix
  of the queue.
\<close>

theorem buildTaskQueue_order:
  "buildTaskQueue a infos identifiers =
     [ApplyTask infos, SendEventTask (ApplyType ApplyEventCompleted)] @
     (if wait a
      then [WaitTask identifiers AllCurrent (Timeout a), SendEventTask statusCompleted]
      else []) @
     (if NoPrune a then []
      else [PruneTask infos, SendEventTask (PruneType PruneEventCompleted)])
   \<and> (\<forall>b. run c (buildTaskQueue a infos identifiers) schedule = Blocked b \<longrightarrow>
          startedTasks (trace b) @ taskQueue b = buildTaskQueue a infos identifiers)
   \<and> prefix (startedTasks (outcome_trace (run c (buildTaskQueue a infos identifiers) schedule)))
        (buildTaskQueue a infos identifiers)"
  using buildTaskQueue_eq [of a infos identifiers]
    run_blocked_queue [of c "buildTaskQueue a infos identifiers" schedule]
    run_trace [of c "buildTaskQueue a infos identifiers" schedule]
  by blast

theorem buildTaskQueue_order_witness:
  "buildTaskQueue example_applier [example_grouping, example_deployment]
     [grouping_id, deployment_id] =
     [ApplyTask [example_grouping, example_deployment],
      SendEventTask (ApplyType ApplyEventCompleted),
      WaitTask [grouping_id, deployment_id] AllCurrent 30,
      SendEventTask statusCompleted,
      PruneTask [example_grouping, example_deployment],
      SendEventTask (PruneType PruneEventCompleted)]
   \<and> buildTaskQueue (example_applier\<lparr>wait := False, NoPrune := True\<rparr>)
       [example_grouping, example_deployment] [grouping_id, deployment_id] =
     [ApplyTask [example_grouping, example_deployment],
      SendEventTask (ApplyType ApplyEventCompleted)]
   \<and> [ApplyTask [example_grouping, example_deployment],
       SendEventTask (ApplyType ApplyEventCompleted),
       WaitTask [grouping_id, deployment_id] AllCurrent 30] @
      [SendEventTask statusCompleted,
       PruneTask [example_grouping, example_deployment],
       SendEventTask (PruneType PruneEventCompleted)] =
     buildTaskQueue example_applier [example_grouping, example_deployment]
       [grouping_id, deployment_id]"
  using buildTaskQueue_order [of example_applier "[example_grouping, example_deployment]"
      "[grouping_id, deployment_id]" "newResourceStatusCollector [grouping_id, deployment_id]"
      "[TaskRecv ok, TaskRecv ok]"]
    buildTaskQueue_order [of "example_applier\<lparr>wait := False, NoPrune := True\<rparr>"
      "[example_grouping, example_deployment]" "[grouping_id, deployment_id]" Map.empty "[]"]
    example_wait_in_flight [unfolded taskStatusRunner_Run_def, folded example_buildTaskQueue]
  by (simp add: example_applier_def)



text \<open>
  C4 (amended). For every run with wait requested, the identifiers handed to the
  Wait task are the identifiers of all prepared objects, in their order: the
  identifier of the grouping object first, then the identifiers of the other
  resources. The run starts the Wait task with these identifiers as its third
  task, after the results of the Apply task and of the first EmitEvent task; no
  Wait task that a run starts has other identifiers.
\<close>

theorem wait_identifiers_all_prepared:
  assumes "wait a" and prep: "readAndPrepareObjects K (Inr read) = Inr infos"
    and ids: "infosToObjMetas infos = Some identifiers"
  shows "\<exists>template groupingObject u others.
       groupingTemplates K read = [template]
     \<and> CreateGroupingObj K template (nonGrouping K read) = Inr groupingObject
     \<and> infos = groupingObject # sortResourceInfos K (nonGrouping K read)
     \<and> Object groupingObject = Unstructured u
     \<and> infosToObjMetas (sortResourceInfos K (nonGrouping K read)) = Some others
     \<and> identifiers = objMetadataOf u # others
     \<and> startedTasks (Run_trace K a (Inr read)
          [TaskRecv \<lparr>Err = None\<rparr>, TaskRecv \<lparr>Err = None\<rparr>]) =
         [ApplyTask infos, SendEventTask (ApplyType ApplyEventCompleted),
          WaitTask (objMetadataOf u # others) AllCurrent (Timeout a)]
     \<and> (\<forall>ids cond timeout.
          WaitTask ids cond timeout \<in> set (startedTasks (Run_trace K a (Inr read) schedule))
          \<longrightarrow> ids = objMetadataOf u # others)"
proof -
  let ?q = "buildTaskQueue a infos identifiers"
  from readAndPrepareObjects_Inr [OF prep] obtain template groupingObject where
    t: "groupingTemplates K read = [template]"
    and g: "CreateGroupingObj K template (nonGrouping K read) = Inr groupingObject"
    and i: "infos = groupingObject # sortResourceInfos K (nonGrouping K read)"
    by blast
  from ids i obtain u others where
    u: "Object groupingObject = Unstructured u"
    and o: "infosToObjMetas (sortResourceInfos K (nonGrouping K read)) = Some others"
    and m: "identifiers = objMetadataOf u # others"
    by (auto simp: infosToObjMetas_Cons split: runtime_object.splits)
  have q: "?q = ApplyTask infos # SendEventTask (ApplyType ApplyEventCompleted) #
      WaitTask identifiers AllCurrent (Timeout a) #
      (SendEventTask statusCompleted #
       (if NoPrune a then []
        else [PruneTask infos, SendEventTask (PruneType PruneEventCompleted)]))"
    using \<open>wait a\<close> by (simp add: buildTaskQueue_eq)
  have third: "startedTasks (Run_trace K a (Inr read)
          [TaskRecv \<lparr>Err = None\<rparr>, TaskRecv \<lparr>Err = None\<rparr>]) =
         [ApplyTask infos, SendEventTask (ApplyType ApplyEventCompleted),
          WaitTask identifiers AllCurrent (Timeout a)]"
    unfolding Run_trace_prepared [OF prep ids] taskStatusRunner_Run_def q
    by (rule run_three_started)
  have only: "ids' = identifiers"
    if "WaitTask ids' cond timeout \<in> set (startedTasks (Run_trace K a (Inr read) schedule))"
    for ids' cond timeout
  proof -
    from run_trace [of "newResourceStatusCollector identifiers" ?q schedule]
    have "set (startedTasks (Run_trace K a (Inr read) schedule)) \<subseteq> set ?q"
      unfolding Run_trace_prepared [OF prep ids] taskStatusRunner_Run_def
      by (auto dest: set_mono_prefix)
    with that have "WaitTask ids' cond timeout \<in> set ?q" by blast
    then show ?thesis by (auto simp: buildTaskQueue_eq split: if_splits)
  qed
  from t g i u o m third only show ?thesis by blast
qed

theorem wait_identifiers_all_prepared_witness:
  "\<exists>u others. Object example_grouping = Unstructured u
     \<and> [grouping_id, deployment_id] = objMetadataOf u # others
     \<and> startedTasks (Run_trace example_collaborators example_applier
          (Inr [example_deployment, example_grouping])
          [TaskRecv \<lparr>Err = None\<rparr>, TaskRecv \<lparr>Err = None\<rparr>]) =
         [ApplyTask [example_grouping, example_deployment],
          SendEventTask (ApplyType ApplyEventCompleted),
          WaitTask (objMetadataOf u # others) AllCurrent 30]"
proof -
  have w: "wait example_applier" by (simp add: example_applier_def)
  have t: "Timeout example_applier = 30" by (simp add: example_applier_def)
  from wait_identifiers_all_prepared [OF w example_prepared example_identifiers,
      where schedule = "[]"]
  show ?thesis unfolding t by blast
qed

text \<open>
  The claim as stated fails: in the example run the applied set is the grouping
  object and the Deployment, and the Wait task that the run starts carries the
  identifier of the grouping object, as the first of its identifiers.
\<close>

theorem wait_identifiers_include_grouping:
  "readAndPrepareObjects example_collaborators (Inr [example_deployment, example_grouping]) =
     Inr [example_grouping, example_deployment]
   \<and> IsGroupingObject example_collaborators (Object example_grouping)
   \<and> infosToObjMetas [example_grouping] = Some [grouping_id]
   \<and> startedTasks (Run_trace example_collaborators example_applier
        (Inr [example_deployment, example_grouping]) [TaskRecv ok, TaskRecv ok]) =
       [ApplyTask [example_grouping, example_deployment],
        SendEventTask (ApplyType ApplyEventCompleted),
        WaitTask [grouping_id, deployment_id] AllCurrent 30]"
proof -
  have 1: "IsGroupingObject example_collaborators (Object example_grouping)"
    by (simp add: example_collaborators_def example_grouping_def)
  have 2: "infosToObjMetas [example_grouping] = Some [grouping_id]"
    by (simp add: example_grouping_def infosToObjMetas_def grouping_id_def)
  have 3: "startedTasks (Run_trace example_collaborators example_applier
        (Inr [example_deployment, example_grouping]) [TaskRecv ok, TaskRecv ok]) =
       [ApplyTask [example_grouping, example_deployment],
        SendEventTask (ApplyType ApplyEventCompleted),
        WaitTask [grouping_id, deployment_id] AllCurrent 30]"
    unfolding Run_trace_prepared [OF example_prepared example_identifiers]
      example_buildTaskQueue example_wait_in_flight
    by simp
  from example_prepared 1 2 3 show ?thesis by blast
qed

text \<open>
  C9 (amended). When \<^verbatim>\<open>readAndPrepareObjects\<close> fails, the only event of the run
  is an Error event, and no Init event is written. When it succeeds, the stream is
  empty only if the type assertion of \<^verbatim>\<open>infosToObjMetas\<close> panics; otherwise its
  first event is the Init event over the identifiers of the prepared objects, and
  no later event is an Init event.
\<close>

theorem Run_init_first:
  "(\<forall>err. readAndPrepareObjects K getObjects = Inl err \<longrightarrow>
      Run K a getObjects schedule =
        Finished [ErrorType (WrapPrefix err ''error reading resources'')])
   \<and> (\<forall>infos. readAndPrepareObjects K getObjects = Inr infos \<longrightarrow>
        (case emitted (Run K a getObjects schedule) of
           [] \<Rightarrow> infosToObjMetas infos = None
         | e # es \<Rightarrow>
             (\<exists>identifiers. infosToObjMetas infos = Some identifiers
                \<and> e = InitType [(ApplyAction, identifiers)])
             \<and> list_all (\<lambda>e. \<not> isInitType e) es))"
proof (intro conjI allI impI)
  fix err assume "readAndPrepareObjects K getObjects = Inl err"
  then show "Run K a getObjects schedule =
        Finished [ErrorType (WrapPrefix err ''error reading resources'')]"
    by (simp add: Run_unfold)
next
  fix infos assume prep: "readAndPrepareObjects K getObjects = Inr infos"
  show "case emitted (Run K a getObjects schedule) of
           [] \<Rightarrow> infosToObjMetas infos = None
         | e # es \<Rightarrow>
             (\<exists>identifiers. infosToObjMetas infos = Some identifiers
                \<and> e = InitType [(ApplyAction, identifiers)])
             \<and> list_all (\<lambda>e. \<not> isInitType e) es"
  proof (cases "infosToObjMetas infos")
    case None
    with prep show ?thesis by (simp add: Run_unfold)
  next
    case (Some identifiers)
    let ?o = "taskStatusRunner_Run identifiers (buildTaskQueue a infos identifiers) schedule"
    have no: "\<forall>e\<in>set (eventStream (outcome_trace ?o)). \<not> isInitType e"
      using runner_events by blast
    show ?thesis
    proof (cases ?o)
      case (Returned err tr)
      with prep Some no show ?thesis
        by (cases err) (simp_all add: Run_unfold Let_def list_all_iff)
    next
      case (Blocked b)
      with prep Some no show ?thesis by (simp add: Run_unfold Let_def list_all_iff)
    next
      case (Panicked tr)
      with prep Some no show ?thesis by (simp add: Run_unfold Let_def list_all_iff)
    qed
  qed
qed

theorem Run_init_first_witness:
  "(case emitted (Run example_collaborators example_applier
        (Inr [example_deployment, example_grouping])
        [TaskRecv ok, StatusRecv (Some (statusUpdate deployment_id InProgressStatus))]) of
      [] \<Rightarrow> False
    | e # es \<Rightarrow> e = InitType [(ApplyAction, [grouping_id, deployment_id])]
        \<and> list_all (\<lambda>e. \<not> isInitType e) es)
   \<and> Run example_collaborators example_applier
        (Inr [example_grouping, example_deployment, example_grouping]) [] =
      Finished [ErrorType (WrapPrefix
        (MultipleGroupingObjError [example_grouping, example_grouping])
        ''error reading resources'')]"
proof -
  have many: "readAndPrepareObjects example_collaborators
      (Inr [example_grouping, example_deployment, example_grouping]) =
      Inl (MultipleGroupingObjError [example_grouping, example_grouping])"
    by (simp add: readAndPrepareObjects_def splitInfos_def example_collaborators_def
        example_deployment_def example_grouping_def)
  from Run_init_first [of example_collaborators
      "Inr [example_grouping, example_deployment, example_grouping]" example_applier "[]"] many
  have 1: "Run example_collaborators example_applier
        (Inr [example_grouping, example_deployment, example_grouping]) [] =
      Finished [ErrorType (WrapPrefix
        (MultipleGroupingObjError [example_grouping, example_grouping])
        ''error reading resources'')]"
    by blast
  from Run_init_first [of example_collaborators
      "Inr [example_deployment, example_grouping]" example_applier
      "[TaskRecv ok, StatusRecv (Some (statusUpdate deployment_id InProgressStatus))]"]
    example_prepared example_identifiers
  have 2: "case emitted (Run example_collaborators example_applier
        (Inr [example_deployment, example_grouping])
        [TaskRecv ok, StatusRecv (Some (statusUpdate deployment_id InProgressStatus))]) of
      [] \<Rightarrow> False
    | e # es \<Rightarrow> e = InitType [(ApplyAction, [grouping_id, deployment_id])]
        \<and> list_all (\<lambda>e. \<not> isInitType e) es"
    by (auto split: list.splits)
  from 1 2 show ?thesis by blast
qed

text \<open>
  The claim as stated fails: a run over a Deployment alone, with no grouping-object
  template, writes one event, and it is an Error event.
\<close>

theorem Run_error_without_init:
  "emitted (Run example_collaborators example_applier (Inr [example_deployment]) []) =
     [ErrorType (WrapPrefix NoGroupingObjError ''error reading resources'')]
   \<and> \<not> isInitType
        (hd (emitted (Run example_collaborators example_applier (Inr [example_deployment]) [])))"
  by (simp add: Run_unfold readAndPrepareObjects_def splitInfos_def example_collaborators_def
      example_deployment_def)

text \<open>
  C8 (amended). For every call to \<^verbatim>\<open>Run\<close> whose goroutine returns, the stream is
  closed once, after its last event, and it is not empty. An Error event can only
  be the last event, so there is at most one. A stream that does not end with an
  Error event carries all planned phase-completion events, in their order, unless
  the run was cancelled: a cancelled run can end with neither.
\<close>

theorem Run_terminal_outcome:
  assumes "Run K a getObjects schedule = Finished evs"
  shows "evs \<noteq> [] \<and> list_all (\<lambda>e. \<not> isErrorType e) (butlast evs)
    \<and> (isErrorType (last evs) \<or> DoneRecv \<in> set schedule
         \<or> subseq (phaseCompletionEvents a) evs)"
proof (cases "readAndPrepareObjects K getObjects")
  case (Inl err)
  with assms show ?thesis by (auto simp: Run_unfold)
next
  case (Inr infos)
  show ?thesis
  proof (cases "infosToObjMetas infos")
    case None
    with assms Inr show ?thesis by (simp add: Run_unfold)
  next
    case (Some identifiers)
    let ?q = "buildTaskQueue a infos identifiers"
    let ?o = "taskStatusRunner_Run identifiers ?q schedule"
    from assms Inr Some obtain err tr where o: "?o = Returned err tr"
      by (cases ?o) (simp_all add: Run_unfold Let_def)
    have no: "\<forall>e\<in>set (eventStream tr). \<not> isErrorType e"
      using runner_events [of _ identifiers a infos schedule] o by simp
    show ?thesis
    proof (cases err)
      case (Some e)
      with assms Inr \<open>infosToObjMetas infos = Some identifiers\<close> o
      have "evs = InitType [(ApplyAction, identifiers)] # eventStream tr @ [ErrorType e]"
        by (simp add: Run_unfold Let_def)
      with no show ?thesis
        by (simp add: list_all_iff butlast_append)
    next
      case None
      with assms Inr \<open>infosToObjMetas infos = Some identifiers\<close> o
      have evs: "evs = InitType [(ApplyAction, identifiers)] # eventStream tr"
        by (simp add: Run_unfold Let_def)
      have "subseq (phaseCompletionEvents a) evs" if "DoneRecv \<notin> set schedule"
      proof -
        from o None that have "startedTasks tr = ?q"
          unfolding taskStatusRunner_Run_def by (auto dest: run_complete)
        with subseq_taskEvents [of tr]
        have "subseq (phaseCompletionEvents a) (eventStream tr)"
          by (simp add: taskEvents_buildTaskQueue)
        then show ?thesis unfolding evs by (rule list_emb_Cons)
      qed
      then have third: "DoneRecv \<in> set schedule \<or> subseq (phaseCompletionEvents a) evs"
        by blast
      have "\<forall>e\<in>set evs. \<not> isErrorType e" using evs no by simp
      then have second: "list_all (\<lambda>e. \<not> isErrorType e) (butlast evs)"
        by (auto simp: list_all_iff dest: in_set_butlastD)
      from evs second third show ?thesis by blast
    qed
  qed
qed

theorem Run_terminal_outcome_witness:
  "Run example_collaborators example_applier (Inr [example_deployment, example_grouping])
     [TaskRecv ok, TaskRecv ok,
      StatusRecv (Some (statusUpdate grouping_id CurrentStatus)),
      StatusRecv (Some (statusUpdate deployment_id CurrentStatus)),
      TaskRecv ok, TaskRecv ok, TaskRecv ok, TaskRecv ok] =
   Finished [InitType [(ApplyAction, [grouping_id, deployment_id])],
      ApplyType ApplyEventCompleted,
      StatusType (statusUpdate grouping_id CurrentStatus),
      StatusType (statusUpdate deployment_id CurrentStatus),
      statusCompleted, PruneType PruneEventCompleted]
   \<and> subseq (phaseCompletionEvents example_applier)
       [InitType [(ApplyAction, [grouping_id, deployment_id])],
        ApplyType ApplyEventCompleted,
        StatusType (statusUpdate grouping_id CurrentStatus),
        StatusType (statusUpdate deployment_id CurrentStatus),
        statusCompleted, PruneType PruneEventCompleted]"
proof -
  have differ: "grouping_id \<noteq> deployment_id"
    by (simp add: grouping_id_def deployment_id_def)
  have r: "Run example_collaborators example_applier
     (Inr [example_deployment, example_grouping])
     [TaskRecv ok, TaskRecv ok,
      StatusRecv (Some (statusUpdate grouping_id CurrentStatus)),
      StatusRecv (Some (statusUpdate deployment_id CurrentStatus)),
      TaskRecv ok, TaskRecv ok, TaskRecv ok, TaskRecv ok] =
   Finished [InitType [(ApplyAction, [grouping_id, deployment_id])],
      ApplyType ApplyEventCompleted,
      StatusType (statusUpdate grouping_id CurrentStatus),
      StatusType (statusUpdate deployment_id CurrentStatus),
      statusCompleted, PruneType PruneEventCompleted]"
    using differ
    by (simp add: Run_unfold example_prepared example_identifiers example_buildTaskQueue
        Let_def taskStatusRunner_Run_def run_def nextTask_def example_queue_def ok_def
        latestStatus_def resourceStatus_def statusUpdate_def completeIfWaitTask_def
        statusCompleted_def)
  from Run_terminal_outcome [OF r] r show ?thesis
    by (simp add: statusCompleted_def)
qed

text \<open>
  The claim as stated fails: the example run, cancelled while its wait task is in
  flight, ends after ApplyCompleted and a forwarded status event, with two of its
  three planned phase-completion events missing and without an Error event.
\<close>

theorem Run_cancelled_no_terminal:
  "Run example_collaborators example_applier (Inr [example_deployment, example_grouping])
     [TaskRecv ok, TaskRecv ok,
      StatusRecv (Some (statusUpdate deployment_id InProgressStatus)),
      DoneRecv, TaskRecv ok] =
   Finished [InitType [(ApplyAction, [grouping_id, deployment_id])],
      ApplyType ApplyEventCompleted,
      StatusType (statusUpdate deployment_id InProgressStatus)]
   \<and> phaseCompletionEvents example_applier =
       [ApplyType ApplyEventCompleted, statusCompleted, PruneType PruneEventCompleted]"
proof -
  have differ: "grouping_id \<noteq> deployment_id"
    by (simp add: grouping_id_def deployment_id_def)
  have planned: "phaseCompletionEvents example_applier =
       [ApplyType ApplyEventCompleted, statusCompleted, PruneType PruneEventCompleted]"
    by (simp add: phaseCompletionEvents_def example_applier_def)
  show ?thesis
    using differ planned
    by (simp add: Run_unfold example_prepared example_identifiers example_buildTaskQueue
        Let_def taskStatusRunner_Run_def run_def nextTask_def example_queue_def ok_def
        latestStatus_def resourceStatus_def statusUpdate_def completeIfWaitTask_def)
qed

section \<open>The text form of identifiers\<close>

text \<open>
  C7 (amended). For every identifier whose four fields hold no underscore and no
  surrounding whitespace, whose name is not empty and whose group and kind are not
  both empty, parsing the rendered form returns the identifier. Rendering always
  yields at least four underscore-separated fields. Parsing rejects a string with
  fewer than four fields, and a string of four fields whose name, or whose group
  and kind, are empty after the trim.
\<close>

theorem parse_render_roundtrip:
  "(plainField (Namespace m) \<and> plainField (Name m)
      \<and> plainField (Group (GroupKind m)) \<and> plainField (Kind (GroupKind m))
      \<and> Name m \<noteq> [] \<and> \<not> Empty (GroupKind m)
    \<longrightarrow> parseObjMetadata (String m) = Some m)
   \<and> 4 \<le> length (Split (String m) fieldSeparator)
   \<and> (length (Split str fieldSeparator) < 4 \<longrightarrow> parseObjMetadata str = None)
   \<and> (length (Split str fieldSeparator) = 4
        \<and> TrimSpace (Split str fieldSeparator ! 1) = [] \<longrightarrow> parseObjMetadata str = None)
   \<and> (length (Split str fieldSeparator) = 4
        \<and> TrimSpace (Split str fieldSeparator ! 2) = []
        \<and> TrimSpace (Split str fieldSeparator ! 3) = [] \<longrightarrow> parseObjMetadata str = None)"
proof -
  have "parseObjMetadata (String m) = Some m"
    if "plainField (Namespace m) \<and> plainField (Name m)
      \<and> plainField (Group (GroupKind m)) \<and> plainField (Kind (GroupKind m))
      \<and> Name m \<noteq> [] \<and> \<not> Empty (GroupKind m)"
    using that
    by (simp add: parseObjMetadata_def Split_String Empty_def Let_def plainField_def)
  moreover have "4 \<le> length (Split (String m) fieldSeparator)"
    by (rule length_Split_String)
  moreover have "length (Split str fieldSeparator) < 4 \<longrightarrow> parseObjMetadata str = None"
    by (simp add: parseObjMetadata_def Let_def)
  moreover have "length (Split str fieldSeparator) = 4
        \<and> TrimSpace (Split str fieldSeparator ! 1) = [] \<longrightarrow> parseObjMetadata str = None"
    by (simp add: parseObjMetadata_def Let_def)
  moreover have "length (Split str fieldSeparator) = 4
        \<and> TrimSpace (Split str fieldSeparator ! 2) = []
        \<and> TrimSpace (Split str fieldSeparator ! 3) = [] \<longrightarrow> parseObjMetadata str = None"
    by (simp add: parseObjMetadata_def Let_def Empty_def)
  ultimately show ?thesis by blast
qed

theorem parse_render_roundtrip_witness:
  "parseObjMetadata (String deployment_id) = Some deployment_id
   \<and> parseObjMetadata (String grouping_id) = Some grouping_id
   \<and> parseObjMetadata ''_test-name_apps'' = None
   \<and> parseObjMetadata ''default_ _apps_Deployment'' = None
   \<and> parseObjMetadata ''default_foo_ _'' = None
   \<and> parseObjMetadata (''default_'' @ [CHR 0xC2, CHR 0xA0] @ ''_apps_Deployment'') = None"
proof -
  have d: "plainField (Namespace deployment_id) \<and> plainField (Name deployment_id)
      \<and> plainField (Group (GroupKind deployment_id))
      \<and> plainField (Kind (GroupKind deployment_id))
      \<and> Name deployment_id \<noteq> [] \<and> \<not> Empty (GroupKind deployment_id)"
    by (simp add: deployment_id_def plainField_def fieldSeparator_def TrimSpace_def
        whiteSpace_def dropLeading.simps Empty_def)
  have g: "plainField (Namespace grouping_id) \<and> plainField (Name grouping_id)
      \<and> plainField (Group (GroupKind grouping_id))
      \<and> plainField (Kind (GroupKind grouping_id))
      \<and> Name grouping_id \<noteq> [] \<and> \<not> Empty (GroupKind grouping_id)"
    by (simp add: grouping_id_def plainField_def fieldSeparator_def TrimSpace_def
        whiteSpace_def dropLeading.simps Empty_def)
  have few: "length (Split ''_test-name_apps'' fieldSeparator) < 4"
    by (simp add: Split_def fieldSeparator_def)
  have name: "length (Split ''default_ _apps_Deployment'' fieldSeparator) = 4
      \<and> TrimSpace (Split ''default_ _apps_Deployment'' fieldSeparator ! 1) = []"
    by (simp add: Split_def fieldSeparator_def TrimSpace_def whiteSpace_def dropLeading.simps)
  have gk: "length (Split ''default_foo_ _'' fieldSeparator) = 4
      \<and> TrimSpace (Split ''default_foo_ _'' fieldSeparator ! 2) = []
      \<and> TrimSpace (Split ''default_foo_ _'' fieldSeparator ! 3) = []"
    by (simp add: Split_def fieldSeparator_def TrimSpace_def whiteSpace_def dropLeading.simps)
  have nbsp: "length (Split (''default_'' @ [CHR 0xC2, CHR 0xA0] @ ''_apps_Deployment'')
        fieldSeparator) = 4
      \<and> TrimSpace (Split (''default_'' @ [CHR 0xC2, CHR 0xA0] @ ''_apps_Deployment'')
        fieldSeparator ! 1) = []"
    by (simp add: Split_def fieldSeparator_def TrimSpace_def whiteSpace_def dropLeading.simps)
  from parse_render_roundtrip [of deployment_id "''_test-name_apps''"]
    parse_render_roundtrip [of grouping_id "''default_ _apps_Deployment''"]
    parse_render_roundtrip [of grouping_id "''default_foo_ _''"]
    parse_render_roundtrip [of grouping_id
      "''default_'' @ [CHR 0xC2, CHR 0xA0] @ ''_apps_Deployment''"]
    d g few name gk nbsp
  show ?thesis by blast
qed

text \<open>
  The claim as stated fails: the name \<^verbatim>\<open>my_app\<close> is not empty after the trim, and
  neither is the group-kind, but the rendered form has five fields and is rejected.
\<close>

theorem parse_render_underscore:
  "TrimSpace (Name underscore_id) = ''my_app''
   \<and> \<not> Empty (GroupKind underscore_id)
   \<and> String underscore_id = ''default_my_app_apps_Deployment''
   \<and> parseObjMetadata (String underscore_id) = None"
  by (simp add: underscore_id_def TrimSpace_def whiteSpace_def dropLeading.simps Empty_def String_def
      parseObjMetadata_def Split_def fieldSeparator_def Let_def)

end
